theory Spec2Isabelle
  imports Main "HOL-Library.Char_ord" "HOL-Library.List_Lexorder" "HOL-Library.AList"
begin

section \<open>Data model\<close>

text \<open>
  The exporter is a Google Apps Script project. Two of its entry points are modelled:
  the batch exporter of \<^verbatim>\<open>batchProcessor.js\<close> (a chunked run driven by a time-based
  trigger) and the differential exporter of \<^verbatim>\<open>differentialExporter.js\<close> (one run that
  skips the pages it has already exported). Wall-clock timestamps inside result
  objects, the status sheet and \<^verbatim>\<open>Logger\<close> output are left out; every other value the
  two entry points read or write is part of the model.
\<close>

subsection \<open>Pages, results and the change-detection baseline\<close>

text \<open>The \<^verbatim>\<open>status\<close> field of a result object.\<close>

datatype status = Processing | Success | Fail | Skipped

text \<open>
  The \<^verbatim>\<open>message\<close> field of a result object. The fixed texts of the source are
  Japanese; each one is a constructor here:
  \<^item> \<open>NoMessage\<close>: the empty string a result starts with;
  \<^item> \<open>SaveMessage m\<close>: \<^verbatim>\<open>saveResult.message\<close>;
  \<^item> \<open>ErrorMessage m\<close>: the text built from \<^verbatim>\<open>error.message\<close> by the \<^verbatim>\<open>catch\<close> around
    the block fetch and the conversion;
  \<^item> \<open>PageInfoUnavailable\<close>: the page lookup returned nothing;
  \<^item> \<open>SkippedUnchanged\<close>: not updated since the last export.
\<close>

datatype message =
    NoMessage
  | SaveMessage string
  | ErrorMessage string
  | PageInfoUnavailable
  | SkippedUnchanged

record result =
  pageId :: string
  pageTitle :: string
  status :: status
  message :: message
  fileId :: "string option"

text \<open>
  A Notion property of a page: its \<^verbatim>\<open>type\<close> and, for a title property, the
  \<^verbatim>\<open>plain_text\<close> of each rich-text piece.
\<close>

record notion_prop =
  prop_type :: string
  prop_title :: "string list"

record page =
  page_id :: string
  last_edited_time :: "string option"
  properties :: "(string \<times> notion_prop) list"

text \<open>
  One entry of the object stored under \<^verbatim>\<open>PROCESSED_PAGES_INFO\<close>. The exporter
  writes all three fields; an entry read back from the store may lack
  \<^verbatim>\<open>lastModified\<close> or \<^verbatim>\<open>docId\<close>.
\<close>

record page_info =
  lastModified :: "string option"
  docId :: "string option"
  title :: string

text \<open>
  The parsed object itself: keys in insertion order. \<^verbatim>\<open>obj[k]\<close> is \<open>map_of\<close>,
  \<^verbatim>\<open>obj[k] = v\<close> is \<open>AList.update\<close> (in place for a known key, appended otherwise).
\<close>

type_synonym item_state = "(string \<times> page_info) list"

subsection \<open>The script properties\<close>

text \<open>
  \<^verbatim>\<open>PropertiesService.getScriptProperties()\<close> is a store of strings under string keys.
  The project uses ten keys, the fields below; \<open>None\<close> is a key that is not set. The
  three counters hold decimal numerals (\<^verbatim>\<open>n.toString()\<close>, read back with
  \<^verbatim>\<open>parseInt\<close>). The three JSON-valued keys hold either the text of a value
  (\<open>Json v\<close>, written by \<^verbatim>\<open>JSON.stringify\<close>) or a text that \<^verbatim>\<open>JSON.parse\<close> rejects
  (\<open>Garbage\<close>).
\<close>

datatype 'a json_text = Json 'a | Garbage

record script_properties =
  NOTION_API_KEY :: "string option"
  BATCH_IN_PROGRESS :: "string option"
  CURRENT_BATCH_INDEX :: "nat option"
  TOTAL_PAGES :: "nat option"
  PROCESSED_PAGES :: "nat option"
  BATCH_PAGE_IDS :: "string list json_text option"
  BATCH_STARTED_AT :: "string option"
  BATCH_RESULTS :: "result list json_text option"
  LAST_EXPORT_TIMESTAMP :: "string option"
  PROCESSED_PAGES_INFO :: "item_state json_text option"

text \<open>The store after \<^verbatim>\<open>deleteAllProperties()\<close>.\<close>

definition deleteAllProperties :: script_properties where
  "deleteAllProperties =
     \<lparr>NOTION_API_KEY = None, BATCH_IN_PROGRESS = None, CURRENT_BATCH_INDEX = None,
      TOTAL_PAGES = None, PROCESSED_PAGES = None, BATCH_PAGE_IDS = None,
      BATCH_STARTED_AT = None, BATCH_RESULTS = None, LAST_EXPORT_TIMESTAMP = None,
      PROCESSED_PAGES_INFO = None\<rparr>"

text \<open>The seven \<^verbatim>\<open>deleteProperty\<close> calls on the keys of \<^verbatim>\<open>BATCH_PROPS\<close>.\<close>

definition deleteBatchProperties :: "script_properties \<Rightarrow> script_properties" where
  "deleteBatchProperties ps =
     ps\<lparr>BATCH_IN_PROGRESS := None, CURRENT_BATCH_INDEX := None, TOTAL_PAGES := None,
        PROCESSED_PAGES := None, BATCH_PAGE_IDS := None, BATCH_STARTED_AT := None,
        BATCH_RESULTS := None\<rparr>"

text \<open>\<^verbatim>\<open>parseInt(properties.getProperty(key) || '0')\<close>.\<close>

definition parseIntOr0 :: "nat option \<Rightarrow> nat" where
  "parseIntOr0 v = (case v of None \<Rightarrow> 0 | Some n \<Rightarrow> n)"

subsection \<open>The world outside one invocation\<close>

text \<open>
  The titles of the alerts the two entry points raise with \<^verbatim>\<open>showAlert\<close>
  (\<open>SettingsNotLoaded\<close> stands for the three alerts of \<^verbatim>\<open>loadSettings\<close>).
\<close>

datatype notice =
    SettingsNotLoaded
  | SettingsError
  | ApiKeyMissing
  | NoDataFound
  | BatchStarted nat
  | BatchStopped

text \<open>
  What a run leaves behind besides the store, in program order:
  \<^item> \<open>Alert n\<close>: a call of \<^verbatim>\<open>showAlert\<close>;
  \<^item> \<open>Processed r\<close>: \<^verbatim>\<open>results.push(r)\<close> inside a processing loop;
  \<^item> \<open>Recorded rs\<close>: \<^verbatim>\<open>recordResultsToSpreadsheet(rs)\<close>;
  \<^item> \<open>Summary rs t\<close>: \<^verbatim>\<open>completeAndSummary(rs, t)\<close>;
  \<^item> \<open>SavedPagesInfo m\<close> and \<open>SavedTimestamp t\<close>: \<^verbatim>\<open>setProperty\<close> on the two keys of
    \<^verbatim>\<open>DIFF_PROPS\<close>.
\<close>

datatype event =
    Alert notice
  | Processed result
  | Recorded "result list"
  | Summary "result list" "string option"
  | SavedPagesInfo item_state
  | SavedTimestamp string

text \<open>
  The state that outlives an invocation: the script properties, the number of
  installed time-based triggers whose handler is \<^verbatim>\<open>processBatchExport\<close>, and the
  trace so far. An invocation keeps nothing else: every \<^verbatim>\<open>let\<close> of the source is
  initialised from the store.
\<close>

record world =
  props :: script_properties
  triggers :: nat
  events :: "event list"

text \<open>An exception that leaves an entry point uncaught.\<close>

datatype error = SyntaxError | TypeError

subsection \<open>External collaborators\<close>

text \<open>
  The return value of \<^verbatim>\<open>convertBlocksToGoogleDocs\<close>: \<^verbatim>\<open>{success, message, fileId}\<close>.
\<close>

record save_result =
  success :: bool
  save_message :: string
  save_fileId :: "string option"

datatype block = Block string

text \<open>
  What the services behind the exporter answer during one invocation:
  \<^item> \<open>settings_ok\<close>: whether the settings sheet exists and holds both ids
    (\<^verbatim>\<open>loadSettings\<close>);
  \<^item> \<open>query_database n\<close>: the \<^verbatim>\<open>results\<close> of the Notion database query sent with
    \<^verbatim>\<open>page_size: n\<close>, \<open>None\<close> when the request throws;
  \<^item> \<open>fetch_page\<close>, \<open>fetch_blocks\<close>: the Notion page and block requests, \<open>None\<close> when
    the request throws;
  \<^item> \<open>convertBlocksToGoogleDocs\<close>: the converter of \<^verbatim>\<open>docsConvertor.js\<close> with the
    Docs and Drive services behind it, \<open>Inl m\<close> for an exception with message \<open>m\<close>;
  \<^item> \<open>now\<close>: \<^verbatim>\<open>new Date().toISOString()\<close>.
\<close>

record env =
  settings_ok :: bool
  query_database :: "nat \<Rightarrow> page list option"
  fetch_page :: "string \<Rightarrow> page option"
  fetch_blocks :: "string \<Rightarrow> block list option"
  convertBlocksToGoogleDocs :: "block list \<Rightarrow> string \<Rightarrow> string option \<Rightarrow> string + save_result"
  now :: string

subsection \<open>Page titles\<close>

text \<open>\<^verbatim>\<open>getPageTitle\<close>: the first non-empty title property, else a name made from the id.\<close>

fun find_title :: "(string \<times> notion_prop) list \<Rightarrow> string option" where
  "find_title [] = None"
| "find_title ((propName, p) # rest) =
     (if prop_type p = ''title'' \<and> prop_title p \<noteq> [] then Some (concat (prop_title p))
      else find_title rest)"

definition getPageTitle :: "page \<Rightarrow> string" where
  "getPageTitle pg =
     (case find_title (properties pg) of
        Some t \<Rightarrow> t
      | None \<Rightarrow> ''Page_'' @ take 8 (filter (\<lambda>c. c \<noteq> CHR ''-'') (page_id pg)))"

subsection \<open>Change detection (differentialExporter.js, lines 63-83)\<close>

text \<open>
  JavaScript truthiness of an optional string: \<^verbatim>\<open>undefined\<close>, \<^verbatim>\<open>null\<close> and the
  empty string are falsy.
\<close>

definition truthy :: "string option \<Rightarrow> bool" where
  "truthy v = (case v of None \<Rightarrow> False | Some s \<Rightarrow> s \<noteq> [])"

text \<open>
  \<^verbatim>\<open>!processedPages[pageId] || (lastEditedTime && processedPages[pageId].lastModified < lastEditedTime)\<close>.
  The comparison is JavaScript's \<^verbatim>\<open><\<close> on two strings, the lexicographic order of
  \<open>HOL-Library.List_Lexorder\<close>; with \<^verbatim>\<open>undefined\<close> on the left it is false.
\<close>

definition isNewOrUpdated :: "item_state \<Rightarrow> page \<Rightarrow> bool" where
  "isNewOrUpdated processedPages pg =
     (case map_of processedPages (page_id pg) of
        None \<Rightarrow> True
      | Some info \<Rightarrow>
          (case last_edited_time pg of
             None \<Rightarrow> False
           | Some lastEditedTime \<Rightarrow>
               lastEditedTime \<noteq> [] \<and>
               (case lastModified info of
                  None \<Rightarrow> False
                | Some stored \<Rightarrow> stored < lastEditedTime)))"

text \<open>The object pushed on \<^verbatim>\<open>skippedPages\<close>.\<close>

definition skippedResult :: "item_state \<Rightarrow> page \<Rightarrow> result" where
  "skippedResult processedPages pg =
     \<lparr>pageId = page_id pg, pageTitle = getPageTitle pg, status = Skipped,
      message = SkippedUnchanged,
      fileId = (case map_of processedPages (page_id pg) of
                  None \<Rightarrow> None
                | Some info \<Rightarrow> docId info)\<rparr>"

text \<open>The loop over \<^verbatim>\<open>pages\<close> that fills \<^verbatim>\<open>pagesToProcess\<close> and \<^verbatim>\<open>skippedPages\<close>.\<close>

fun partitionPages ::
  "item_state \<Rightarrow> page list \<Rightarrow> page list \<Rightarrow> result list \<Rightarrow> page list \<times> result list" where
  "partitionPages processedPages [] pagesToProcess skippedPages =
     (pagesToProcess, skippedPages)"
| "partitionPages processedPages (pg # pages) pagesToProcess skippedPages =
     (if isNewOrUpdated processedPages pg
      then partitionPages processedPages pages (pagesToProcess @ [pg]) skippedPages
      else partitionPages processedPages pages pagesToProcess
             (skippedPages @ [skippedResult processedPages pg]))"

section \<open>Operations shared by the entry points\<close>

text \<open>\<^verbatim>\<open>showAlert\<close> (uiUtiles.js): the alert is logged whether or not a UI is attached.\<close>

definition showAlert :: "notice \<Rightarrow> world \<Rightarrow> world" where
  "showAlert n w = w\<lparr>events := events w @ [Alert n]\<rparr>"

text \<open>\<^verbatim>\<open>recordResultsToSpreadsheet\<close> (uiUtiles.js): the rows go to the result sheet.\<close>

definition recordResultsToSpreadsheet :: "result list \<Rightarrow> world \<Rightarrow> world" where
  "recordResultsToSpreadsheet results w = w\<lparr>events := events w @ [Recorded results]\<rparr>"

text \<open>
  \<^verbatim>\<open>loadSettings\<close> (setting.js): each of its three failing paths raises one alert and
  returns \<^verbatim>\<open>false\<close>.
\<close>

definition loadSettings :: "env \<Rightarrow> world \<Rightarrow> bool \<times> world" where
  "loadSettings env w =
     (if settings_ok env then (True, w) else (False, showAlert SettingsNotLoaded w))"

text \<open>
  \<^verbatim>\<open>getNotionDatabasePages\<close> (notionAPI.js): one query with \<^verbatim>\<open>page_size: 100\<close>; its
  \<^verbatim>\<open>catch\<close> returns the empty array.
\<close>

definition getNotionDatabasePages :: "env \<Rightarrow> page list" where
  "getNotionDatabasePages env =
     (case query_database env 100 of None \<Rightarrow> [] | Some results \<Rightarrow> results)"

text \<open>\<^verbatim>\<open>getNotionPageById\<close> (batchProcessor.js): its \<^verbatim>\<open>catch\<close> returns \<^verbatim>\<open>null\<close>.\<close>

definition getNotionPageById :: "env \<Rightarrow> string \<Rightarrow> page option" where
  "getNotionPageById env pid = fetch_page env pid"

text \<open>\<^verbatim>\<open>getPageBlocks\<close> (notionAPI.js): its \<^verbatim>\<open>catch\<close> returns the empty array.\<close>

definition getPageBlocks :: "env \<Rightarrow> string \<Rightarrow> block list" where
  "getPageBlocks env pid =
     (case fetch_blocks env pid of None \<Rightarrow> [] | Some blocks \<Rightarrow> blocks)"

text \<open>
  The inner \<^verbatim>\<open>try\<close> of both processing loops (batchProcessor.js lines 135-153,
  differentialExporter.js lines 113-141): fetch the blocks, convert them, and turn
  the outcome into the result object. The batch exporter passes no existing
  document id.
\<close>

definition convertPage :: "env \<Rightarrow> string \<Rightarrow> string \<Rightarrow> string option \<Rightarrow> result" where
  "convertPage env pid ptitle existingDocId =
     (case convertBlocksToGoogleDocs env (getPageBlocks env pid) ptitle existingDocId of
        Inl err \<Rightarrow>
          \<lparr>pageId = pid, pageTitle = ptitle, status = Fail,
           message = ErrorMessage err, fileId = None\<rparr>
      | Inr saveResult \<Rightarrow>
          (if success saveResult
           then \<lparr>pageId = pid, pageTitle = ptitle, status = Success,
                 message = SaveMessage (save_message saveResult),
                 fileId = save_fileId saveResult\<rparr>
           else \<lparr>pageId = pid, pageTitle = ptitle, status = Fail,
                 message = SaveMessage (save_message saveResult), fileId = None\<rparr>))"

section \<open>The differential exporter (differentialExporter.js)\<close>

text \<open>
  Lines 38-46: the stored baseline, \<^verbatim>\<open>{}\<close> when the key is unset or when
  \<^verbatim>\<open>JSON.parse\<close> throws.
\<close>

definition parsePagesInfo :: "item_state json_text option \<Rightarrow> item_state" where
  "parsePagesInfo v = (case v of None \<Rightarrow> [] | Some Garbage \<Rightarrow> [] | Some (Json m) \<Rightarrow> m)"

text \<open>\<^verbatim>\<open>lastEditedTime || currentTimestamp\<close>.\<close>

definition orElse :: "string option \<Rightarrow> string \<Rightarrow> string" where
  "orElse v d = (case v of None \<Rightarrow> d | Some s \<Rightarrow> if s = [] then d else s)"

text \<open>
  One iteration of the loop over \<^verbatim>\<open>pagesToProcess\<close> (lines 98-159): the result, and
  the in-memory \<^verbatim>\<open>processedPages\<close> after it. The entry of the page is assigned in the
  success branch only. The outer \<^verbatim>\<open>catch\<close> guards \<^verbatim>\<open>getPageTitle\<close>, which has a
  \<^verbatim>\<open>catch\<close> of its own and returns a title for every page that carries an id.
\<close>

definition processDiffPage :: "env \<Rightarrow> item_state \<Rightarrow> page \<Rightarrow> result \<times> item_state" where
  "processDiffPage env processedPages pg =
     (let ptitle = getPageTitle pg;
          existingDocId = (case map_of processedPages (page_id pg) of
                             None \<Rightarrow> None
                           | Some info \<Rightarrow> docId info);
          result = convertPage env (page_id pg) ptitle existingDocId
      in (result,
          if status result = Success
          then AList.update (page_id pg)
                 \<lparr>lastModified = Some (orElse (last_edited_time pg) (now env)),
                  docId = fileId result, title = ptitle\<rparr>
                 processedPages
          else processedPages))"

fun processDiffPages ::
  "env \<Rightarrow> page list \<Rightarrow> result list \<Rightarrow> item_state \<Rightarrow> world \<Rightarrow> result list \<times> item_state \<times> world" where
  "processDiffPages env [] results processedPages w = (results, processedPages, w)"
| "processDiffPages env (pg # rest) results processedPages w =
     (let (result, processedPages') = processDiffPage env processedPages pg
      in processDiffPages env rest (results @ [result]) processedPages'
           (w\<lparr>events := events w @ [Processed result]\<rparr>))"

text \<open>
  \<^verbatim>\<open>exportDifferentialNotionPages\<close>: the returned results (\<open>None\<close> for the early
  \<^verbatim>\<open>return;\<close>) and the world after the call. The two progress alerts, which depend on
  a UI being attached, are left out.
\<close>

definition exportDifferentialNotionPages :: "env \<Rightarrow> world \<Rightarrow> result list option \<times> world" where
  "exportDifferentialNotionPages env w0 =
     (let (ok, w) = loadSettings env w0 in
      if \<not> ok then (None, w)
      else if \<not> truthy (NOTION_API_KEY (props w0)) then (None, showAlert ApiKeyMissing w)
      else
        let processedPages = parsePagesInfo (PROCESSED_PAGES_INFO (props w));
            pages = getNotionDatabasePages env
        in if pages = [] then (None, showAlert NoDataFound w)
           else
             let currentTimestamp = now env;
                 (pagesToProcess, skippedPages) = partitionPages processedPages pages [] [];
                 (processed, processedPages', w') =
                    processDiffPages env pagesToProcess [] processedPages w;
                 results = processed @ skippedPages
             in (Some results,
                 recordResultsToSpreadsheet results
                   (w'\<lparr>props := (props w')
                          \<lparr>PROCESSED_PAGES_INFO := Some (Json processedPages'),
                           LAST_EXPORT_TIMESTAMP := Some currentTimestamp\<rparr>,
                       events := events w' @
                          [SavedPagesInfo processedPages', SavedTimestamp currentTimestamp]\<rparr>)))"

section \<open>The batch exporter (batchProcessor.js)\<close>

definition BATCH_SIZE :: nat where
  "BATCH_SIZE = 5"

text \<open>\<^verbatim>\<open>xs.slice(start, end)\<close> for indices that are not negative.\<close>

definition js_slice :: "nat \<Rightarrow> nat \<Rightarrow> 'a list \<Rightarrow> 'a list" where
  "js_slice startIndex endIndex xs = take (endIndex - startIndex) (drop startIndex xs)"

text \<open>
  One iteration of the loop over \<^verbatim>\<open>batchPageIds\<close> (lines 99-185): the result pushed
  for the page. A page lookup that returns \<^verbatim>\<open>null\<close> gives a \<open>Fail\<close> at once. The outer
  \<^verbatim>\<open>catch\<close> guards \<^verbatim>\<open>getNotionPageById\<close>, \<^verbatim>\<open>getPageTitle\<close> and the status sheet, each
  of which has a \<^verbatim>\<open>catch\<close> of its own.
\<close>

definition processPage :: "env \<Rightarrow> string \<Rightarrow> result" where
  "processPage env pid =
     (case getNotionPageById env pid of
        None \<Rightarrow>
          \<lparr>pageId = pid, pageTitle = ''Unknown (ID: '' @ pid @ '')'', status = Fail,
           message = PageInfoUnavailable, fileId = None\<rparr>
      | Some pg \<Rightarrow> convertPage env pid (getPageTitle pg) None)"

text \<open>
  The loop itself: every path of the body pushes one result, increments
  \<^verbatim>\<open>processedPages\<close> and writes it to \<^verbatim>\<open>PROCESSED_PAGES\<close>.
\<close>

fun processBatchPages ::
  "env \<Rightarrow> string list \<Rightarrow> result list \<Rightarrow> nat \<Rightarrow> world \<Rightarrow> result list \<times> nat \<times> world" where
  "processBatchPages env [] results processedPages w = (results, processedPages, w)"
| "processBatchPages env (pid # rest) results processedPages w =
     (let result = processPage env pid
      in processBatchPages env rest (results @ [result]) (processedPages + 1)
           (w\<lparr>props := (props w)\<lparr>PROCESSED_PAGES := Some (processedPages + 1)\<rparr>,
              events := events w @ [Processed result]\<rparr>))"

text \<open>
  Lines 59-76, the first-run branch: the page ids of the listing become the queue
  and the run state is written.
\<close>

definition initBatch :: "env \<Rightarrow> page list \<Rightarrow> world \<Rightarrow> world" where
  "initBatch env pages w =
     (let pageIds = map page_id pages;
          totalPages = length pageIds
      in showAlert (BatchStarted totalPages)
           (w\<lparr>props := (props w)
                 \<lparr>BATCH_IN_PROGRESS := Some ''true'',
                  CURRENT_BATCH_INDEX := Some 0,
                  TOTAL_PAGES := Some totalPages,
                  PROCESSED_PAGES := Some 0,
                  BATCH_PAGE_IDS := Some (Json pageIds),
                  BATCH_STARTED_AT := Some (now env),
                  BATCH_RESULTS := Some (Json [])\<rparr>\<rparr>))"

text \<open>
  \<^verbatim>\<open>deleteTriggers\<close> removes every installed trigger of \<^verbatim>\<open>processBatchExport\<close>;
  \<^verbatim>\<open>createTriggerForNextBatch\<close> does so too before it installs one.
\<close>

definition deleteTriggers :: "world \<Rightarrow> world" where
  "deleteTriggers w = w\<lparr>triggers := 0\<rparr>"

definition createTriggerForNextBatch :: "world \<Rightarrow> world" where
  "createTriggerForNextBatch w = (deleteTriggers w)\<lparr>triggers := 1\<rparr>"

text \<open>\<^verbatim>\<open>completeAndSummary\<close>: the counts and the duration of the run are logged.\<close>

definition completeAndSummary :: "result list \<Rightarrow> string option \<Rightarrow> world \<Rightarrow> world" where
  "completeAndSummary results startedAt w =
     w\<lparr>events := events w @ [Summary results startedAt]\<rparr>"

text \<open>
  Lines 84-219: read the queue back, process one chunk of \<open>batchSize\<close> ids, write the
  progress, then either finish the run or install the trigger for the next chunk.
  \<^verbatim>\<open>JSON.parse\<close> of an unset key is \<^verbatim>\<open>null\<close>, on which \<^verbatim>\<open>slice\<close> throws.
\<close>

definition processChunk ::
  "nat \<Rightarrow> env \<Rightarrow> nat \<Rightarrow> nat \<Rightarrow> nat \<Rightarrow> string option \<Rightarrow> result list \<Rightarrow> world \<Rightarrow> error + world" where
  "processChunk batchSize env currentBatchIndex totalPages processedPages batchStartedAt
       batchResults w =
     (case BATCH_PAGE_IDS (props w) of
        None \<Rightarrow> Inl TypeError
      | Some Garbage \<Rightarrow> Inl SyntaxError
      | Some (Json pageIds) \<Rightarrow>
          (let startIndex = currentBatchIndex * batchSize;
               endIndex = min (startIndex + batchSize) totalPages;
               batchPageIds = js_slice startIndex endIndex pageIds;
               (results, processedPages', w') =
                  processBatchPages env batchPageIds [] processedPages w;
               batchResults' = batchResults @ results;
               w'' = recordResultsToSpreadsheet results
                       (w'\<lparr>props := (props w')
                              \<lparr>CURRENT_BATCH_INDEX := Some (currentBatchIndex + 1),
                               PROCESSED_PAGES := Some processedPages',
                               BATCH_RESULTS := Some (Json batchResults')\<rparr>\<rparr>)
           in if totalPages \<le> endIndex
              then
                (let w3 = completeAndSummary batchResults' batchStartedAt w''
                 in Inr (deleteTriggers (w3\<lparr>props := deleteBatchProperties (props w3)\<rparr>)))
              else Inr (createTriggerForNextBatch w'')))"

text \<open>
  Lines 45-46: \<^verbatim>\<open>batchResults ? JSON.parse(batchResults) : []\<close>, outside any \<^verbatim>\<open>try\<close>.
\<close>

definition parseBatchResults :: "result list json_text option \<Rightarrow> error + result list" where
  "parseBatchResults v =
     (case v of None \<Rightarrow> Inr [] | Some Garbage \<Rightarrow> Inl SyntaxError | Some (Json rs) \<Rightarrow> Inr rs)"

text \<open>
  \<^verbatim>\<open>processBatchExport\<close>, with the chunk size as a parameter. The stored run state is
  read before the first-run test; in the first-run branch the locals
  \<^verbatim>\<open>currentBatchIndex\<close>, \<^verbatim>\<open>totalPages\<close>, \<^verbatim>\<open>batchStartedAt\<close> and \<^verbatim>\<open>batchResults\<close> are
  assigned anew, \<^verbatim>\<open>processedPages\<close> is not.
\<close>

definition processBatchExportWith :: "nat \<Rightarrow> env \<Rightarrow> world \<Rightarrow> error + world" where
  "processBatchExportWith batchSize env w0 =
     (let (ok, w) = loadSettings env w0 in
      if \<not> ok then Inr (showAlert SettingsError (w\<lparr>props := deleteAllProperties\<rparr>))
      else
        let batchInProgress = (BATCH_IN_PROGRESS (props w) = Some ''true'');
            currentBatchIndex = parseIntOr0 (CURRENT_BATCH_INDEX (props w));
            totalPages = parseIntOr0 (TOTAL_PAGES (props w));
            processedPages = parseIntOr0 (PROCESSED_PAGES (props w));
            batchStartedAt = BATCH_STARTED_AT (props w)
        in case parseBatchResults (BATCH_RESULTS (props w)) of
             Inl e \<Rightarrow> Inl e
           | Inr batchResults \<Rightarrow>
               if \<not> batchInProgress
               then
                 (let pages = getNotionDatabasePages env
                  in if pages = []
                     then Inr ((showAlert NoDataFound w)\<lparr>props := deleteAllProperties\<rparr>)
                     else processChunk batchSize env 0 (length pages) processedPages
                            (Some (now env)) [] (initBatch env pages w))
               else processChunk batchSize env currentBatchIndex totalPages processedPages
                      batchStartedAt batchResults w)"

definition processBatchExport :: "env \<Rightarrow> world \<Rightarrow> error + world" where
  "processBatchExport = processBatchExportWith BATCH_SIZE"

text \<open>
  \<^verbatim>\<open>startBatchExport\<close>, the menu entry. \<^verbatim>\<open>NOTION_API_KEY\<close> is a constant read from the
  store when the script is loaded.
\<close>

definition startBatchExportWith :: "nat \<Rightarrow> env \<Rightarrow> world \<Rightarrow> error + world" where
  "startBatchExportWith batchSize env w0 =
     (if \<not> truthy (NOTION_API_KEY (props w0)) then Inr (showAlert ApiKeyMissing w0)
      else
        let (ok, w) = loadSettings env w0 in
        if \<not> ok then Inr w
        else processBatchExportWith batchSize env
               (deleteTriggers (w\<lparr>props := (props w)\<lparr>BATCH_IN_PROGRESS := None\<rparr>\<rparr>)))"

definition startBatchExport :: "env \<Rightarrow> world \<Rightarrow> error + world" where
  "startBatchExport = startBatchExportWith BATCH_SIZE"

text \<open>\<^verbatim>\<open>cancelBatchExport\<close>: the triggers go first, then the seven keys.\<close>

definition cancelBatchExport :: "world \<Rightarrow> world" where
  "cancelBatchExport w =
     showAlert BatchStopped
       ((deleteTriggers w)\<lparr>props := deleteBatchProperties (props w)\<rparr>)"

text \<open>
  The time-based trigger calling \<^verbatim>\<open>processBatchExport\<close> \<open>n\<close> times in a row, each call
  on the world the previous one left; an uncaught exception ends the sequence.
\<close>

fun invocations :: "nat \<Rightarrow> nat \<Rightarrow> env \<Rightarrow> world \<Rightarrow> error + world" where
  "invocations batchSize 0 env w = Inr w"
| "invocations batchSize (Suc n) env w =
     (case processBatchExportWith batchSize env w of
        Inl e \<Rightarrow> Inl e
      | Inr w' \<Rightarrow> invocations batchSize n env w')"

text \<open>The result lists handed to \<^verbatim>\<open>completeAndSummary\<close> so far.\<close>

fun summaries :: "event list \<Rightarrow> result list list" where
  "summaries [] = []"
| "summaries (Summary rs t # es) = rs # summaries es"
| "summaries (e # es) = summaries es"

section \<open>Notions used in the statements\<close>

text \<open>
  The three ways in which the batch loop sees a page fail: the page lookup returns
  nothing, the conversion throws, or it reports \<^verbatim>\<open>success: false\<close>.
\<close>

definition pageFails :: "env \<Rightarrow> string \<Rightarrow> bool" where
  "pageFails env pid =
     (case getNotionPageById env pid of
        None \<Rightarrow> True
      | Some pg \<Rightarrow>
          (case convertBlocksToGoogleDocs env (getPageBlocks env pid) (getPageTitle pg) None of
             Inl err \<Rightarrow> True
           | Inr saveResult \<Rightarrow> \<not> success saveResult))"

text \<open>
  Two sets of services that answer the page, block and conversion requests alike;
  they may differ in the listing, the clock and the settings.
\<close>

definition sameServices :: "env \<Rightarrow> env \<Rightarrow> bool" where
  "sameServices env env' =
     (fetch_page env' = fetch_page env \<and> fetch_blocks env' = fetch_blocks env \<and>
      convertBlocksToGoogleDocs env' = convertBlocksToGoogleDocs env)"

text \<open>
  The persisted state of a run over the queue \<open>pageIds\<close> after \<open>j\<close> chunks: what an
  invocation that continues the run finds in the store.
\<close>

definition running :: "env \<Rightarrow> nat \<Rightarrow> string list \<Rightarrow> nat \<Rightarrow> world \<Rightarrow> bool" where
  "running env batchSize pageIds j w =
     (BATCH_IN_PROGRESS (props w) = Some ''true'' \<and>
      CURRENT_BATCH_INDEX (props w) = Some j \<and>
      TOTAL_PAGES (props w) = Some (length pageIds) \<and>
      BATCH_PAGE_IDS (props w) = Some (Json pageIds) \<and>
      BATCH_RESULTS (props w) =
        Some (Json (map (processPage env) (take (j * batchSize) pageIds))) \<and>
      triggers w = 1)"

text \<open>
  The loop over \<^verbatim>\<open>pagesToProcess\<close> without its accumulators: the results it pushes and
  the in-memory baseline it ends with, as a function of the baseline it starts from.
\<close>

fun diffRun :: "env \<Rightarrow> item_state \<Rightarrow> page list \<Rightarrow> result list \<times> item_state" where
  "diffRun env processedPages [] = ([], processedPages)"
| "diffRun env processedPages (pg # rest) =
     (let (r, processedPages') = processDiffPage env processedPages pg;
          (rs, processedPages'') = diffRun env processedPages' rest
      in (r # rs, processedPages''))"

section \<open>Example data\<close>

text \<open>
  A page whose title is its id, and services over a database of such pages: the
  listing returns at most \<^verbatim>\<open>page_size\<close> of them, every page and block request
  succeeds, and the conversion throws for the titles in \<open>failing\<close>.
\<close>

definition examplePage :: "string \<Rightarrow> page" where
  "examplePage i =
     \<lparr>page_id = i, last_edited_time = Some ''2024-05-01T10:00:00.000Z'',
      properties = [(''Name'', \<lparr>prop_type = ''title'', prop_title = [i]\<rparr>)]\<rparr>"

definition exampleEnv :: "string list \<Rightarrow> string list \<Rightarrow> env" where
  "exampleEnv ids failing =
     \<lparr>settings_ok = True,
      query_database = (\<lambda>n. Some (take n (map examplePage ids))),
      fetch_page = (\<lambda>i. Some (examplePage i)),
      fetch_blocks = (\<lambda>i. Some [Block i]),
      convertBlocksToGoogleDocs =
        (\<lambda>blocks t existingDocId.
           if t \<in> set failing then Inl ''conversion failed''
           else Inr \<lparr>success = True, save_message = ''saved'',
                     save_fileId = Some (''doc-'' @ t)\<rparr>),
      now = ''2024-06-01T00:00:00.000Z''\<rparr>"

definition freshWorld :: world where
  "freshWorld =
     \<lparr>props = deleteAllProperties\<lparr>NOTION_API_KEY := Some ''secret''\<rparr>,
      triggers = 0, events = []\<rparr>"

definition tenIds :: "string list" where
  "tenIds = [''p01'', ''p02'', ''p03'', ''p04'', ''p05'', ''p06'', ''p07'', ''p08'', ''p09'', ''p10'']"

text \<open>The same services at a later time, with the listing unavailable.\<close>

definition laterEnv :: "env \<Rightarrow> env" where
  "laterEnv env = env\<lparr>query_database := (\<lambda>n. None), now := ''2024-06-01T00:05:00.000Z''\<rparr>"

text \<open>The same services with every block request failing.\<close>

definition blocksUnavailable :: "env \<Rightarrow> env" where
  "blocksUnavailable env = env\<lparr>fetch_blocks := (\<lambda>pid. None)\<rparr>"

text \<open>The result of a page that \<open>exampleEnv\<close> converts.\<close>

definition savedResult :: "string \<Rightarrow> result" where
  "savedResult i =
     \<lparr>pageId = i, pageTitle = i, status = Success, message = SaveMessage ''saved'',
      fileId = Some (''doc-'' @ i)\<rparr>"

text \<open>
  The world that the first invocation of a run over the ten pages leaves: five pages
  processed, the trigger for the second chunk installed.
\<close>

definition midRunWorld :: world where
  "midRunWorld =
     \<lparr>props = deleteAllProperties
        \<lparr>NOTION_API_KEY := Some ''secret'', BATCH_IN_PROGRESS := Some ''true'',
         CURRENT_BATCH_INDEX := Some 1, TOTAL_PAGES := Some 10, PROCESSED_PAGES := Some 5,
         BATCH_PAGE_IDS := Some (Json tenIds),
         BATCH_STARTED_AT := Some ''2024-06-01T00:00:00.000Z'',
         BATCH_RESULTS := Some (Json (map savedResult (take 5 tenIds)))\<rparr>,
      triggers = 1,
      events = Alert (BatchStarted 10) # map (\<lambda>i. Processed (savedResult i)) (take 5 tenIds) @
        [Recorded (map savedResult (take 5 tenIds))]\<rparr>"

text \<open>
  A world whose change-detection baseline says that \<open>p01\<close> has been exported at its
  current \<^verbatim>\<open>last_edited_time\<close>.
\<close>

definition baselineWorld :: world where
  "baselineWorld =
     freshWorld\<lparr>props := (props freshWorld)
       \<lparr>PROCESSED_PAGES_INFO := Some (Json
          [(''p01'', \<lparr>lastModified = Some ''2024-05-01T10:00:00.000Z'',
                     docId = Some ''doc-p01'', title = ''p01''\<rparr>)])\<rparr>\<rparr>"

text \<open>The same services with the settings sheet incomplete.\<close>

definition settingsMissing :: "env \<Rightarrow> env" where
  "settingsMissing env = env\<lparr>settings_ok := False\<rparr>"

text \<open>
  The results of a page whose conversion \<open>exampleEnv\<close> lets fail, and of a page that
  the change detector skips; the baseline entry \<open>exampleEnv\<close> leads to.
\<close>

definition failedResult :: "string \<Rightarrow> result" where
  "failedResult i =
     \<lparr>pageId = i, pageTitle = i, status = Fail, message = ErrorMessage ''conversion failed'',
      fileId = None\<rparr>"

definition unchangedResult :: "string \<Rightarrow> result" where
  "unchangedResult i =
     \<lparr>pageId = i, pageTitle = i, status = Skipped, message = SkippedUnchanged,
      fileId = Some (''doc-'' @ i)\<rparr>"

definition staleInfo :: "string \<Rightarrow> page_info" where
  "staleInfo i =
     \<lparr>lastModified = Some ''2024-04-01T10:00:00.000Z'', docId = Some (''old-'' @ i), title = i\<rparr>"

definition exportedInfo :: "string \<Rightarrow> page_info" where
  "exportedInfo i =
     \<lparr>lastModified = Some ''2024-05-01T10:00:00.000Z'', docId = Some (''doc-'' @ i), title = i\<rparr>"

text \<open>
  A world whose baseline holds, for \<open>p01\<close> and \<open>p02\<close>, the entries of an export made
  before the pages were last edited.
\<close>

definition staleWorld :: world where
  "staleWorld =
     freshWorld\<lparr>props := (props freshWorld)
       \<lparr>PROCESSED_PAGES_INFO :=
          Some (Json [(''p01'', staleInfo ''p01''), (''p02'', staleInfo ''p02'')])\<rparr>\<rparr>"

section \<open>The change detector\<close>

text \<open>The accumulating loop is a filter: both outputs keep the order of the listing.\<close>

lemma partitionPages_filter:
  "partitionPages ps pages tp sk =
     (tp @ filter (isNewOrUpdated ps) pages,
      sk @ map (skippedResult ps) (filter (\<lambda>pg. \<not> isNewOrUpdated ps pg) pages))"
  by (induction pages arbitrary: tp sk) simp_all

text \<open>
  Claim C3, as amended. The change detector sends a page to \<^verbatim>\<open>pagesToProcess\<close> exactly
  when the baseline has no entry for its id, or the page carries a non-empty
  \<^verbatim>\<open>last_edited_time\<close> and the entry carries a \<^verbatim>\<open>lastModified\<close> that is strictly smaller
  in string order. Every other page is pre-resolved to a \<open>Skipped\<close> result: equal
  timestamps, a page without a timestamp, and also an entry whose stored timestamp
  is missing or does not compare smaller. Both outputs keep the order of the listing.
\<close>

theorem change_detector_partition:
  "partitionPages ps pages [] [] =
     (filter (isNewOrUpdated ps) pages,
      map (skippedResult ps) (filter (\<lambda>pg. \<not> isNewOrUpdated ps pg) pages)) \<and>
   (isNewOrUpdated ps pg \<longleftrightarrow>
      (map_of ps (page_id pg) = None \<or>
       (\<exists>info t s. map_of ps (page_id pg) = Some info \<and> last_edited_time pg = Some t \<and>
          t \<noteq> [] \<and> lastModified info = Some s \<and> s < t)))"
proof
  show "partitionPages ps pages [] [] =
     (filter (isNewOrUpdated ps) pages,
      map (skippedResult ps) (filter (\<lambda>pg. \<not> isNewOrUpdated ps pg) pages))"
    by (simp add: partitionPages_filter)
next
  show "isNewOrUpdated ps pg \<longleftrightarrow>
      (map_of ps (page_id pg) = None \<or>
       (\<exists>info t s. map_of ps (page_id pg) = Some info \<and> last_edited_time pg = Some t \<and>
          t \<noteq> [] \<and> lastModified info = Some s \<and> s < t))"
    by (auto simp: isNewOrUpdated_def split: option.splits)
qed

text \<open>
  The example of the specification: with the baseline \<open>{A: 100}\<close> and the listing
  \<open>[A: 100, B: none, C: 150]\<close>, \<open>A\<close> is skipped and \<open>B\<close>, \<open>C\<close> are processed.
\<close>

theorem change_detector_partition_witness:
  "partitionPages
     [(''A'', \<lparr>lastModified = Some ''100'', docId = Some ''docA'', title = ''A''\<rparr>)]
     [\<lparr>page_id = ''A'', last_edited_time = Some ''100'', properties = []\<rparr>,
      \<lparr>page_id = ''B'', last_edited_time = None, properties = []\<rparr>,
      \<lparr>page_id = ''C'', last_edited_time = Some ''150'', properties = []\<rparr>] [] [] =
   ([\<lparr>page_id = ''B'', last_edited_time = None, properties = []\<rparr>,
     \<lparr>page_id = ''C'', last_edited_time = Some ''150'', properties = []\<rparr>],
    [\<lparr>pageId = ''A'', pageTitle = ''Page_A'', status = Skipped,
      message = SkippedUnchanged, fileId = Some ''docA''\<rparr>])"
  using change_detector_partition
    [of "[(''A'', \<lparr>lastModified = Some ''100'', docId = Some ''docA'', title = ''A''\<rparr>)]"
        "[\<lparr>page_id = ''A'', last_edited_time = Some ''100'', properties = []\<rparr>,
          \<lparr>page_id = ''B'', last_edited_time = None, properties = []\<rparr>,
          \<lparr>page_id = ''C'', last_edited_time = Some ''150'', properties = []\<rparr>]"]
  by (simp add: isNewOrUpdated_def skippedResult_def getPageTitle_def)

text \<open>
  Claim C3 as stated fails where the stored timestamp is missing or is not a
  timestamp: the page is skipped, not processed.
\<close>

theorem change_detector_counterexample:
  "partitionPages
     [(''A'', \<lparr>lastModified = None, docId = Some ''docA'', title = ''A''\<rparr>),
      (''B'', \<lparr>lastModified = Some ''not a date'', docId = Some ''docB'', title = ''B''\<rparr>)]
     [\<lparr>page_id = ''A'', last_edited_time = Some ''2024-05-01T10:00:00.000Z'', properties = []\<rparr>,
      \<lparr>page_id = ''B'', last_edited_time = Some ''2024-05-01T10:00:00.000Z'', properties = []\<rparr>]
     [] [] =
   ([],
    [\<lparr>pageId = ''A'', pageTitle = ''Page_A'', status = Skipped,
      message = SkippedUnchanged, fileId = Some ''docA''\<rparr>,
     \<lparr>pageId = ''B'', pageTitle = ''Page_B'', status = Skipped,
      message = SkippedUnchanged, fileId = Some ''docB''\<rparr>])"
  by (simp add: isNewOrUpdated_def skippedResult_def getPageTitle_def)

section \<open>Unfolding the exporters on the example data\<close>

lemmas exporter_defs =
  processBatchExport_def processBatchExportWith_def startBatchExport_def
  startBatchExportWith_def cancelBatchExport_def processChunk_def initBatch_def
  parseBatchResults_def parseIntOr0_def loadSettings_def showAlert_def
  getNotionDatabasePages_def getNotionPageById_def getPageBlocks_def getPageTitle_def
  processPage_def convertPage_def js_slice_def BATCH_SIZE_def deleteAllProperties_def
  deleteBatchProperties_def truthy_def deleteTriggers_def createTriggerForNextBatch_def
  completeAndSummary_def recordResultsToSpreadsheet_def

lemmas example_defs =
  exampleEnv_def examplePage_def freshWorld_def tenIds_def laterEnv_def
  blocksUnavailable_def savedResult_def midRunWorld_def baselineWorld_def settingsMissing_def

lemma midRunWorld_reached:
  "processBatchExport (exampleEnv tenIds []) freshWorld = Inr midRunWorld"
  by (simp add: exporter_defs example_defs Let_def)

section \<open>The batch exporter: one invocation\<close>

lemma processBatchPages_eq:
  "processBatchPages env ids rs p w =
     (rs @ map (processPage env) ids, p + length ids,
      w\<lparr>props := (props w)\<lparr>PROCESSED_PAGES :=
                    (if ids = [] then PROCESSED_PAGES (props w) else Some (p + length ids))\<rparr>,
        events := events w @ map (\<lambda>i. Processed (processPage env i)) ids\<rparr>)"
  by (induction ids arbitrary: rs p w) (simp_all add: Let_def)

lemma summaries_append: "summaries (xs @ ys) = summaries xs @ summaries ys"
  by (induction xs rule: summaries.induct) simp_all

lemma summaries_Processed: "summaries (map (\<lambda>i. Processed (f i)) ids) = []"
  by (induction ids) simp_all

lemma processChunk_eq:
  assumes "BATCH_PAGE_IDS (props w) = Some (Json ids)"
  shows "processChunk bs env k n p st rs w =
     Inr (let chunk = js_slice (k * bs) (min (k * bs + bs) n) ids;
              rs' = rs @ map (processPage env) chunk;
              ps' = (props w)\<lparr>CURRENT_BATCH_INDEX := Some (k + 1),
                               PROCESSED_PAGES := Some (p + length chunk),
                               BATCH_RESULTS := Some (Json rs')\<rparr>;
              evs = events w @ map (\<lambda>i. Processed (processPage env i)) chunk @
                      [Recorded (map (processPage env) chunk)]
          in if n \<le> k * bs + bs
             then \<lparr>props = deleteBatchProperties ps', triggers = 0,
                   events = evs @ [Summary rs' st]\<rparr>
             else \<lparr>props = ps', triggers = 1, events = evs\<rparr>)"
  using assms
  by (simp add: processChunk_def processBatchPages_eq Let_def deleteTriggers_def
        createTriggerForNextBatch_def completeAndSummary_def recordResultsToSpreadsheet_def)

lemma convertPage_sameServices:
  "sameServices env env' \<Longrightarrow> convertPage env' pid t d = convertPage env pid t d"
  by (simp add: sameServices_def convertPage_def getPageBlocks_def)

lemma processPage_sameServices:
  assumes "sameServices env env'"
  shows "processPage env' = processPage env"
proof
  fix pid
  have "fetch_page env' = fetch_page env"
    using assms by (simp add: sameServices_def)
  then show "processPage env' pid = processPage env pid"
    by (simp add: processPage_def getNotionPageById_def convertPage_sameServices [OF assms]
          split: option.splits)
qed

lemma take_chunk:
  "take (j * bs) ids @ js_slice (j * bs) (min (j * bs + bs) (length ids)) ids =
   take (j * bs + bs) ids"
  by (simp add: js_slice_def take_add min_def)

text \<open>A continuing invocation that does not reach the end of the queue.\<close>

lemma running_step:
  assumes run: "running env bs ids j w"
    and ok: "settings_ok env'"
    and same: "sameServices env env'"
    and more: "j * bs + bs < length ids"
  shows "\<exists>w'. processBatchExportWith bs env' w = Inr w' \<and> running env bs ids (Suc j) w' \<and>
           summaries (events w') = summaries (events w) \<and>
           deleteBatchProperties (props w') = deleteBatchProperties (props w)"
proof -
  have P: "processPage env' = processPage env"
    using same by (rule processPage_sameServices)
  have q: "BATCH_PAGE_IDS (props w) = Some (Json ids)"
    using run by (simp add: running_def)
  have "processBatchExportWith bs env' w =
          processChunk bs env' j (length ids) (parseIntOr0 (PROCESSED_PAGES (props w)))
            (BATCH_STARTED_AT (props w)) (map (processPage env) (take (j * bs) ids)) w"
    using run ok
    by (simp add: processBatchExportWith_def loadSettings_def running_def parseBatchResults_def
          parseIntOr0_def)
  also have "\<dots> = Inr \<lparr>props = (props w)\<lparr>CURRENT_BATCH_INDEX := Some (j + 1),
                 PROCESSED_PAGES := Some (parseIntOr0 (PROCESSED_PAGES (props w)) +
                    length (js_slice (j * bs) (min (j * bs + bs) (length ids)) ids)),
                 BATCH_RESULTS := Some (Json (map (processPage env) (take (j * bs + bs) ids)))\<rparr>,
               triggers = 1,
               events = events w @
                 map (\<lambda>i. Processed (processPage env i))
                   (js_slice (j * bs) (min (j * bs + bs) (length ids)) ids) @
                 [Recorded (map (processPage env)
                    (js_slice (j * bs) (min (j * bs + bs) (length ids)) ids))]\<rparr>"
    using more
    by (simp add: processChunk_eq [OF q] P Let_def take_chunk [symmetric] del: min_less_iff_conj)
  finally show ?thesis
    using run
    by (simp add: running_def summaries_append summaries_Processed add.commute
          deleteBatchProperties_def)
qed


lemma sameServices_refl: "sameServices env env"
  by (simp add: sameServices_def)

text \<open>A continuing invocation that reaches the end of the queue.\<close>

lemma running_finish:
  assumes run: "running env bs ids j w"
    and ok: "settings_ok env'"
    and same: "sameServices env env'"
    and last: "length ids \<le> j * bs + bs"
  shows "\<exists>w'. processBatchExportWith bs env' w = Inr w' \<and>
           props w' = deleteBatchProperties (props w) \<and> triggers w' = 0 \<and>
           summaries (events w') = summaries (events w) @ [map (processPage env) ids]"
proof -
  have P: "processPage env' = processPage env"
    using same by (rule processPage_sameServices)
  have q: "BATCH_PAGE_IDS (props w) = Some (Json ids)"
    using run by (simp add: running_def)
  have all: "take (j * bs) ids @ js_slice (j * bs) (min (j * bs + bs) (length ids)) ids = ids"
    using last take_chunk [of j bs ids] by simp
  have "processBatchExportWith bs env' w =
          processChunk bs env' j (length ids) (parseIntOr0 (PROCESSED_PAGES (props w)))
            (BATCH_STARTED_AT (props w)) (map (processPage env) (take (j * bs) ids)) w"
    using run ok
    by (simp add: processBatchExportWith_def loadSettings_def running_def parseBatchResults_def
          parseIntOr0_def)
  also have "\<dots> = Inr \<lparr>props = deleteBatchProperties (props w), triggers = 0,
               events = events w @
                 map (\<lambda>i. Processed (processPage env i))
                   (js_slice (j * bs) (min (j * bs + bs) (length ids)) ids) @
                 [Recorded (map (processPage env)
                    (js_slice (j * bs) (min (j * bs + bs) (length ids)) ids)),
                  Summary (map (processPage env) ids) (BATCH_STARTED_AT (props w))]\<rparr>"
    using last all [symmetric]
    by (simp add: processChunk_eq [OF q] P Let_def deleteBatchProperties_def
          map_append [symmetric] del: map_append min_less_iff_conj)
  finally show ?thesis
    by (simp add: summaries_append summaries_Processed)
qed

text \<open>The first invocation of a run: the state is written, then chunk 0 is processed.\<close>

lemma first_invocation:
  assumes ok: "settings_ok env"
    and idle: "BATCH_IN_PROGRESS (props w) \<noteq> Some ''true''"
    and parse: "BATCH_RESULTS (props w) \<noteq> Some Garbage"
    and pages: "getNotionDatabasePages env = pages" "pages \<noteq> []"
  shows "processBatchExportWith bs env w =
           processChunk bs env 0 (length pages) (parseIntOr0 (PROCESSED_PAGES (props w)))
             (Some (now env)) [] (initBatch env pages w)"
  using assms
  by (simp add: processBatchExportWith_def loadSettings_def parseBatchResults_def Let_def
        split: option.splits json_text.splits)

lemma initBatch_queue:
  "BATCH_PAGE_IDS (props (initBatch env pages w)) = Some (Json (map page_id pages))"
  by (simp add: initBatch_def showAlert_def Let_def)

lemma first_chunk:
  "processChunk bs env 0 (length pages) p st [] (initBatch env pages w) =
     Inr (let chunk = take bs (map page_id pages);
              ps' = (props w)\<lparr>BATCH_IN_PROGRESS := Some ''true'',
                      CURRENT_BATCH_INDEX := Some 1,
                      TOTAL_PAGES := Some (length pages),
                      PROCESSED_PAGES := Some (p + length chunk),
                      BATCH_PAGE_IDS := Some (Json (map page_id pages)),
                      BATCH_STARTED_AT := Some (now env),
                      BATCH_RESULTS := Some (Json (map (processPage env) chunk))\<rparr>;
              evs = events w @ Alert (BatchStarted (length pages)) #
                      map (\<lambda>i. Processed (processPage env i)) chunk @
                      [Recorded (map (processPage env) chunk)]
          in if length pages \<le> bs
             then \<lparr>props = deleteBatchProperties (props w), triggers = 0,
                   events = evs @ [Summary (map (processPage env) chunk) st]\<rparr>
             else \<lparr>props = ps', triggers = 1, events = evs\<rparr>)"
  by (simp add: processChunk_eq [OF initBatch_queue] Let_def js_slice_def)
     (simp add: initBatch_def showAlert_def min_def Let_def deleteBatchProperties_def)

lemma start_running:
  assumes ok: "settings_ok env"
    and idle: "BATCH_IN_PROGRESS (props w) \<noteq> Some ''true''"
    and parse: "BATCH_RESULTS (props w) \<noteq> Some Garbage"
    and pages: "getNotionDatabasePages env = pages" "pages \<noteq> []"
    and more: "bs < length pages"
  shows "\<exists>w'. processBatchExportWith bs env w = Inr w' \<and>
           running env bs (map page_id pages) 1 w' \<and>
           summaries (events w') = summaries (events w) \<and>
           deleteBatchProperties (props w') = deleteBatchProperties (props w)"
  using more
  by (simp add: first_invocation [OF ok idle parse pages] first_chunk
        Let_def running_def summaries_append summaries_Processed deleteBatchProperties_def
        comp_def)

lemma start_finish:
  assumes ok: "settings_ok env"
    and idle: "BATCH_IN_PROGRESS (props w) \<noteq> Some ''true''"
    and parse: "BATCH_RESULTS (props w) \<noteq> Some Garbage"
    and pages: "getNotionDatabasePages env = pages" "pages \<noteq> []"
    and last: "length pages \<le> bs"
  shows "\<exists>w'. processBatchExportWith bs env w = Inr w' \<and>
           props w' = deleteBatchProperties (props w) \<and> triggers w' = 0 \<and>
           summaries (events w') =
             summaries (events w) @ [map (processPage env) (map page_id pages)]"
  using last
  by (simp add: first_invocation [OF ok idle parse pages] first_chunk
        Let_def summaries_append summaries_Processed deleteBatchProperties_def comp_def)

lemma invocations_add:
  "invocations bs (a + b) env w =
     (case invocations bs a env w of Inl e \<Rightarrow> Inl e | Inr w' \<Rightarrow> invocations bs b env w')"
  by (induction a arbitrary: w) (simp_all split: sum.splits)

lemma invocations_Suc_0:
  "invocations bs (Suc 0) env w = processBatchExportWith bs env w"
  by (simp split: sum.splits)

lemma running_iterate:
  assumes ok: "settings_ok env'"
    and same: "sameServices env env'"
  shows "running env bs ids j w \<Longrightarrow> (j + m) * bs < length ids \<Longrightarrow>
         \<exists>w'. invocations bs m env' w = Inr w' \<and> running env bs ids (j + m) w' \<and>
           summaries (events w') = summaries (events w) \<and>
           deleteBatchProperties (props w') = deleteBatchProperties (props w)"
proof (induction m arbitrary: j w)
  case 0
  then show ?case by simp
next
  case (Suc m)
  have "j * bs + bs \<le> (j + Suc m) * bs"
    by (simp add: algebra_simps)
  with Suc.prems(2) have "j * bs + bs < length ids"
    by linarith
  from running_step [OF Suc.prems(1) ok same this]
  obtain w1 where w1: "processBatchExportWith bs env' w = Inr w1"
      "running env bs ids (Suc j) w1" "summaries (events w1) = summaries (events w)"
      "deleteBatchProperties (props w1) = deleteBatchProperties (props w)"
    by blast
  from Suc.prems(2) have "(Suc j + m) * bs < length ids"
    by simp
  from Suc.IH [OF w1(2) this]
  obtain w' where "invocations bs m env' w1 = Inr w'" "running env bs ids (Suc j + m) w'"
      "summaries (events w') = summaries (events w1)"
      "deleteBatchProperties (props w') = deleteBatchProperties (props w1)"
    by blast
  with w1 show ?case
    by simp
qed

text \<open>From a run in progress at chunk \<open>j\<close> to its completion at the last chunk \<open>l\<close>.\<close>

lemma running_to_completion:
  assumes ok: "settings_ok env'"
    and same: "sameServices env env'"
    and run: "running env bs ids j w"
    and j: "j \<le> l"
    and l: "l * bs < length ids" "length ids \<le> l * bs + bs"
  shows "\<exists>w'. invocations bs (l - j + 1) env' w = Inr w' \<and>
           props w' = deleteBatchProperties (props w) \<and> triggers w' = 0 \<and>
           summaries (events w') = summaries (events w) @ [map (processPage env) ids]"
proof -
  from j l(1) have "(j + (l - j)) * bs < length ids"
    by simp
  from running_iterate [OF ok same run this]
  obtain w1 where w1: "invocations bs (l - j) env' w = Inr w1"
      "running env bs ids (j + (l - j)) w1" "summaries (events w1) = summaries (events w)"
      "deleteBatchProperties (props w1) = deleteBatchProperties (props w)"
    by blast
  from w1(2) j have "running env bs ids l w1"
    by simp
  from running_finish [OF this ok same l(2)]
  obtain w' where "processBatchExportWith bs env' w1 = Inr w'"
      "props w' = deleteBatchProperties (props w1)" "triggers w' = 0"
      "summaries (events w') = summaries (events w1) @ [map (processPage env) ids]"
    by blast
  moreover have "invocations bs (l - j + 1) env' w = processBatchExportWith bs env' w1"
    unfolding invocations_add w1(1) by (simp split: sum.splits)
  ultimately show ?thesis
    using w1 by simp
qed


lemma processBatchPages_sameServices:
  assumes "sameServices env env'"
  shows "processBatchPages env' ids rs p w = processBatchPages env ids rs p w"
  by (simp add: processBatchPages_eq processPage_sameServices [OF assms])

lemma processChunk_sameServices:
  assumes "sameServices env env'"
  shows "processChunk bs env' k n p st rs w = processChunk bs env k n p st rs w"
  unfolding processChunk_def processBatchPages_sameServices [OF assms] ..

text \<open>
  A continuing invocation consults neither the listing nor the clock: it depends on
  the services only through the page, block and conversion requests.
\<close>

lemma continuing_sameServices:
  assumes "BATCH_IN_PROGRESS (props w) = Some ''true''"
    and "settings_ok env" "settings_ok env'"
    and same: "sameServices env env'"
  shows "processBatchExportWith bs env' w = processBatchExportWith bs env w"
  using assms(1-3)
  by (simp add: processBatchExportWith_def loadSettings_def Let_def
        processChunk_sameServices [OF same] split: sum.splits)

lemma invocations_sameServices:
  assumes ok: "settings_ok env" "settings_ok env'"
    and same: "sameServices env env'"
  shows "running env bs ids j w \<Longrightarrow> (j + m) * bs < length ids \<Longrightarrow>
         invocations bs (Suc m) env' w = invocations bs (Suc m) env w"
proof (induction m arbitrary: j w)
  case 0
  then have "BATCH_IN_PROGRESS (props w) = Some ''true''"
    by (simp add: running_def)
  from continuing_sameServices [OF this ok same]
  show ?case unfolding invocations_Suc_0 .
next
  case (Suc m)
  have inprog: "BATCH_IN_PROGRESS (props w) = Some ''true''"
    using Suc.prems(1) by (simp add: running_def)
  have "j * bs + bs \<le> (j + Suc m) * bs"
    by (simp add: algebra_simps)
  with Suc.prems(2) have "j * bs + bs < length ids"
    by linarith
  from running_step [OF Suc.prems(1) ok(1) sameServices_refl this]
  obtain w1 where w1: "processBatchExportWith bs env w = Inr w1" "running env bs ids (Suc j) w1"
    by blast
  from Suc.prems(2) have "(Suc j + m) * bs < length ids"
    by simp
  from Suc.IH [OF w1(2) this]
  have IH: "invocations bs (Suc m) env' w1 = invocations bs (Suc m) env w1" .
  have w1': "processBatchExportWith bs env' w = Inr w1"
    using continuing_sameServices [OF inprog ok same] w1(1) by simp
  have "invocations bs (Suc (Suc m)) env' w = invocations bs (Suc m) env' w1"
    by (simp only: invocations.simps(2) [of bs "Suc m" env' w] w1' sum.case)
  moreover have "invocations bs (Suc (Suc m)) env w = invocations bs (Suc m) env w1"
    by (simp only: invocations.simps(2) [of bs "Suc m" env w] w1(1) sum.case)
  ultimately show ?case
    by (simp only: IH)
qed

text \<open>A whole run, from the first invocation to the one that processes the last chunk \<open>l\<close>.\<close>

lemma run_from_start:
  assumes ok: "settings_ok env"
    and idle: "BATCH_IN_PROGRESS (props w) \<noteq> Some ''true''"
    and parse: "BATCH_RESULTS (props w) \<noteq> Some Garbage"
    and pages: "getNotionDatabasePages env = pages"
    and l: "l * bs < length pages" "length pages \<le> l * bs + bs"
  shows "\<exists>wf. invocations bs (l + 1) env w = Inr wf \<and>
           props wf = deleteBatchProperties (props w) \<and> triggers wf = 0 \<and>
           summaries (events wf) =
             summaries (events w) @ [map (processPage env) (map page_id pages)]"
proof (cases l)
  case 0
  with l have "pages \<noteq> []" "length pages \<le> bs"
    by auto
  from start_finish [OF ok idle parse pages this]
  show ?thesis
    using 0 by (auto split: sum.splits)
next
  case (Suc l')
  have "bs \<le> l * bs"
    using Suc by simp
  with l have more: "bs < length pages"
    by linarith
  then have ne: "pages \<noteq> []"
    by auto
  from start_running [OF ok idle parse pages ne more]
  obtain w1 where w1: "processBatchExportWith bs env w = Inr w1"
      "running env bs (map page_id pages) 1 w1"
      "summaries (events w1) = summaries (events w)"
      "deleteBatchProperties (props w1) = deleteBatchProperties (props w)"
    by blast
  have "1 \<le> l"
    using Suc by simp
  from running_to_completion [OF ok sameServices_refl w1(2) this] l
  obtain wf where "invocations bs (l - 1 + 1) env w1 = Inr wf"
      "props wf = deleteBatchProperties (props w1)" "triggers wf = 0"
      "summaries (events wf) =
         summaries (events w1) @ [map (processPage env) (map page_id pages)]"
    by auto
  with w1 Suc show ?thesis
    by simp
qed

lemma processPage_pageId: "pageId (processPage env pid) = pid"
  by (simp add: processPage_def convertPage_def split: option.splits sum.splits)

lemma processPage_status:
  "status (processPage env pid) = (if pageFails env pid then Fail else Success)"
  by (simp add: processPage_def pageFails_def convertPage_def split: option.splits sum.splits)

lemma processPage_message:
  "message (processPage env pid) =
     (case getNotionPageById env pid of
        None \<Rightarrow> PageInfoUnavailable
      | Some pg \<Rightarrow>
          (case convertBlocksToGoogleDocs env (getPageBlocks env pid) (getPageTitle pg) None of
             Inl err \<Rightarrow> ErrorMessage err
           | Inr saveResult \<Rightarrow> SaveMessage (save_message saveResult)))"
  by (simp add: processPage_def convertPage_def split: option.splits sum.splits)

section \<open>Failure isolation\<close>

text \<open>
  The failures that the loop of the batch exporter sees. A run started from an idle
  store over a non-empty listing completes without an exception leaving
  \<^verbatim>\<open>processBatchExport\<close>, and the results handed to \<^verbatim>\<open>completeAndSummary\<close> hold one
  result per queued page, in queue order. A page whose lookup returns nothing, whose
  conversion throws or reports \<^verbatim>\<open>success: false\<close> gets status \<open>Fail\<close> and the message
  of that stage; every other page gets \<open>Success\<close>, whatever happened to the pages
  before it.
\<close>

lemma failures_stay_local:
  assumes ok: "settings_ok env"
    and idle: "BATCH_IN_PROGRESS (props w) \<noteq> Some ''true''"
    and parse: "BATCH_RESULTS (props w) \<noteq> Some Garbage"
    and pages: "getNotionDatabasePages env = pages"
    and l: "l * bs < length pages" "length pages \<le> l * bs + bs"
  shows "\<exists>wf. invocations bs (l + 1) env w = Inr wf \<and>
           summaries (events wf) =
             summaries (events w) @ [map (processPage env) (map page_id pages)] \<and>
           map pageId (map (processPage env) (map page_id pages)) = map page_id pages \<and>
           (\<forall>pid. status (processPage env pid) = (if pageFails env pid then Fail else Success)) \<and>
           (\<forall>pid. message (processPage env pid) =
              (case getNotionPageById env pid of
                 None \<Rightarrow> PageInfoUnavailable
               | Some pg \<Rightarrow>
                   (case convertBlocksToGoogleDocs env (getPageBlocks env pid)
                           (getPageTitle pg) None of
                      Inl err \<Rightarrow> ErrorMessage err
                    | Inr saveResult \<Rightarrow> SaveMessage (save_message saveResult))))"
proof -
  from run_from_start [OF ok idle parse pages l]
  obtain wf where "invocations bs (l + 1) env w = Inr wf"
      "summaries (events wf) =
         summaries (events w) @ [map (processPage env) (map page_id pages)]"
    by blast
  moreover have "map pageId (map (processPage env) (map page_id pages)) = map page_id pages"
    by (simp add: processPage_pageId comp_def)
  ultimately show ?thesis
    using processPage_status processPage_message by blast
qed

text \<open>
  The example of the specification: ten pages in two chunks of five, the conversion
  of the fifth page always throws; the run completes with nine \<open>Success\<close> and one
  \<open>Fail\<close>, pages six to ten included.
\<close>

lemma ten_pages_fifth_fails:
  "\<exists>wf. invocations BATCH_SIZE 2 (exampleEnv tenIds [''p05'']) freshWorld = Inr wf \<and>
      map (map status) (summaries (events wf)) =
        [ [Success, Success, Success, Success, Fail, Success, Success, Success, Success, Success] ]"
proof -
  let ?env = "exampleEnv tenIds [''p05'']"
  have pages: "getNotionDatabasePages ?env = map examplePage tenIds"
    by (simp add: getNotionDatabasePages_def exampleEnv_def tenIds_def)
  have st: "map status (map (processPage ?env) (map page_id (map examplePage tenIds))) =
      [Success, Success, Success, Success, Fail, Success, Success, Success, Success, Success]"
    by (simp add: tenIds_def examplePage_def processPage_def convertPage_def exampleEnv_def
          getNotionPageById_def getPageBlocks_def getPageTitle_def)
  from failures_stay_local [of ?env freshWorld "map examplePage tenIds" 1 BATCH_SIZE, OF _ _ _ pages]
  obtain wf where wf: "invocations BATCH_SIZE (1 + 1) ?env freshWorld = Inr wf"
    "summaries (events wf) =
       summaries (events freshWorld) @
         [map (processPage ?env) (map page_id (map examplePage tenIds))]"
    by (auto simp: exampleEnv_def freshWorld_def deleteAllProperties_def BATCH_SIZE_def tenIds_def)
  have "invocations BATCH_SIZE 2 ?env freshWorld = Inr wf"
    using wf(1) by (simp only: one_add_one)
  moreover have "map (map status) (summaries (events wf)) =
      [ [Success, Success, Success, Success, Fail, Success, Success, Success, Success, Success] ]"
    unfolding wf(2) using st by (simp add: freshWorld_def)
  ultimately show ?thesis
    by (intro exI [of _ wf] conjI)
qed

text \<open>
  Claim C6. A failure at the block stage is not recorded as a \<open>Fail\<close>. The block
  request of page \<open>p01\<close> fails; \<^verbatim>\<open>getPageBlocks\<close> catches the error and returns no
  blocks, so the \<^verbatim>\<open>try\<close> around it in the loop sees nothing, the page is converted
  from the empty list, and
  \<^item> \<^verbatim>\<open>processBatchExport\<close> records \<open>Success\<close> for the page and completes the run;
  \<^item> \<^verbatim>\<open>exportDifferentialNotionPages\<close> records \<open>Success\<close> as well and writes the
    baseline entry of the page, so that a second run, with the page unchanged, skips
    it: the content of the page is not exported by either run.
\<close>

theorem failed_block_request_recorded_as_success:
  "fetch_blocks (blocksUnavailable (exampleEnv [''p01''] [])) ''p01'' = None \<and>
   getPageBlocks (blocksUnavailable (exampleEnv [''p01''] [])) ''p01'' = [] \<and>
   processPage (blocksUnavailable (exampleEnv [''p01''] [])) ''p01'' = savedResult ''p01'' \<and>
   status (savedResult ''p01'') = Success \<and>
   processBatchExport (blocksUnavailable (exampleEnv [''p01''] [])) freshWorld =
     Inr \<lparr>props = props freshWorld, triggers = 0,
          events = [Alert (BatchStarted 1), Processed (savedResult ''p01''),
                    Recorded [savedResult ''p01''],
                    Summary [savedResult ''p01''] (Some ''2024-06-01T00:00:00.000Z'')]\<rparr> \<and>
   exportDifferentialNotionPages (blocksUnavailable (exampleEnv [''p01''] [])) freshWorld =
     (Some [savedResult ''p01''],
      \<lparr>props = (props freshWorld)
         \<lparr>PROCESSED_PAGES_INFO := Some (Json [(''p01'', exportedInfo ''p01'')]),
          LAST_EXPORT_TIMESTAMP := Some ''2024-06-01T00:00:00.000Z''\<rparr>,
       triggers = 0,
       events =
         [Processed (savedResult ''p01''),
          SavedPagesInfo [(''p01'', exportedInfo ''p01'')],
          SavedTimestamp ''2024-06-01T00:00:00.000Z'',
          Recorded [savedResult ''p01''] ]\<rparr>) \<and>
   fst (exportDifferentialNotionPages (blocksUnavailable (exampleEnv [''p01''] []))
      (snd (exportDifferentialNotionPages (blocksUnavailable (exampleEnv [''p01''] []))
         freshWorld))) =
     Some [unchangedResult ''p01'']"
  by (simp add: exporter_defs example_defs Let_def
        exportDifferentialNotionPages_def parsePagesInfo_def isNewOrUpdated_def skippedResult_def
        processDiffPage_def orElse_def unchangedResult_def exportedInfo_def)

section \<open>Resuming a run\<close>

text \<open>
  Claim C4. Take any chunk size and any listing whose last chunk has index \<open>l\<close>, and
  any \<open>k < l\<close>. After the invocations for the chunks \<open>0..k\<close> the store holds the run
  with \<^verbatim>\<open>CURRENT_BATCH_INDEX = k + 1\<close>. Invoking again from that world alone, with
  services that agree on the page, block and conversion requests but may differ
  in listing and clock, completes the run in \<open>l - k\<close> further invocations, and the
  world it ends in is the world of the uninterrupted sequence of \<open>l + 1\<close>
  invocations; the results handed to \<^verbatim>\<open>completeAndSummary\<close> are those of the loop
  body applied to the whole queue.
\<close>

theorem resumed_run_equals_uninterrupted_run:
  assumes ok: "settings_ok env" "settings_ok env'"
    and same: "sameServices env env'"
    and idle: "BATCH_IN_PROGRESS (props w) \<noteq> Some ''true''"
    and parse: "BATCH_RESULTS (props w) \<noteq> Some Garbage"
    and pages: "getNotionDatabasePages env = pages"
    and l: "l * bs < length pages" "length pages \<le> l * bs + bs"
    and k: "k < l"
  shows "\<exists>wk wf.
      invocations bs (k + 1) env w = Inr wk \<and>
      BATCH_IN_PROGRESS (props wk) = Some ''true'' \<and>
      CURRENT_BATCH_INDEX (props wk) = Some (k + 1) \<and>
      invocations bs (l - k) env' wk = Inr wf \<and>
      invocations bs (l + 1) env w = Inr wf \<and>
      summaries (events wf) =
        summaries (events w) @ [map (processPage env) (map page_id pages)]"
proof -
  let ?ids = "map page_id pages"
  have "bs \<le> l * bs"
    using k by (cases l) simp_all
  with l have more: "bs < length pages"
    by linarith
  then have ne: "pages \<noteq> []"
    by auto
  from start_running [OF ok(1) idle parse pages ne more]
  obtain w1 where w1: "processBatchExportWith bs env w = Inr w1"
      "running env bs ?ids 1 w1" "summaries (events w1) = summaries (events w)"
    by blast
  have "(k + 1) * bs \<le> l * bs"
    using k by (intro mult_le_mono1) simp
  with l have "(1 + k) * bs < length ?ids"
    by simp
  from running_iterate [OF ok(1) sameServices_refl w1(2) this]
  obtain wk where wk: "invocations bs k env w1 = Inr wk" "running env bs ?ids (1 + k) wk"
      "summaries (events wk) = summaries (events w1)"
    by blast
  have first: "invocations bs (k + 1) env w = Inr wk"
    using w1(1) wk(1) by simp
  have le: "1 + k \<le> l"
    using k by simp
  have rest: "l - (1 + k) + 1 = l - k"
    using k by simp
  from running_to_completion [OF ok(1) sameServices_refl wk(2) le] l
  obtain wf where wf: "invocations bs (l - k) env wk = Inr wf"
      "summaries (events wf) = summaries (events wk) @ [map (processPage env) ?ids]"
    unfolding rest by auto
  have "l - k = Suc (l - k - 1)" "(1 + k + (l - k - 1)) * bs < length ?ids"
    using k l by simp_all
  with invocations_sameServices [OF ok same wk(2), of "l - k - 1"]
  have resumed: "invocations bs (l - k) env' wk = Inr wf"
    using wf(1) by simp
  have "l + 1 = (k + 1) + (l - k)"
    using k by simp
  then have whole: "invocations bs (l + 1) env w = Inr wf"
    using first wf(1) by (simp only: invocations_add sum.case)
  show ?thesis
    using first wk(2) resumed whole wf(2) w1(3) wk(3)
    by (intro exI [of _ wk] exI [of _ wf] conjI) (simp_all add: running_def)
qed

text \<open>Ten pages, chunks of five: interrupted after the first chunk.\<close>

theorem resumed_run_equals_uninterrupted_run_witness:
  "\<exists>wk wf.
      invocations BATCH_SIZE 1 (exampleEnv tenIds []) freshWorld = Inr wk \<and>
      BATCH_IN_PROGRESS (props wk) = Some ''true'' \<and>
      CURRENT_BATCH_INDEX (props wk) = Some 1 \<and>
      invocations BATCH_SIZE 1 (laterEnv (exampleEnv tenIds [])) wk = Inr wf \<and>
      invocations BATCH_SIZE 2 (exampleEnv tenIds []) freshWorld = Inr wf \<and>
      summaries (events wf) = [map (processPage (exampleEnv tenIds [])) tenIds]"
proof -
  let ?env = "exampleEnv tenIds []"
  have pages: "getNotionDatabasePages ?env = map examplePage tenIds"
    by (simp add: getNotionDatabasePages_def exampleEnv_def tenIds_def)
  have ids: "map page_id (map examplePage tenIds) = tenIds"
    by (simp add: tenIds_def examplePage_def)
  from resumed_run_equals_uninterrupted_run
    [of ?env "laterEnv ?env" freshWorld "map examplePage tenIds" 1 BATCH_SIZE 0, OF _ _ _ _ _ pages]
  obtain wk wf where f:
      "invocations BATCH_SIZE (0 + 1) ?env freshWorld = Inr wk"
      "BATCH_IN_PROGRESS (props wk) = Some ''true''"
      "CURRENT_BATCH_INDEX (props wk) = Some (0 + 1)"
      "invocations BATCH_SIZE (1 - 0) (laterEnv ?env) wk = Inr wf"
      "invocations BATCH_SIZE (1 + 1) ?env freshWorld = Inr wf"
      "summaries (events wf) =
         summaries (events freshWorld) @
           [map (processPage ?env) (map page_id (map examplePage tenIds))]"
    by (auto simp del: invocations.simps
          simp: exampleEnv_def laterEnv_def sameServices_def freshWorld_def
            deleteAllProperties_def BATCH_SIZE_def tenIds_def)
  have g1: "invocations BATCH_SIZE 1 ?env freshWorld = Inr wk"
    using f(1) by (simp only: add_0)
  have g3: "CURRENT_BATCH_INDEX (props wk) = Some 1"
    using f(3) by (simp only: add_0)
  have g4: "invocations BATCH_SIZE 1 (laterEnv ?env) wk = Inr wf"
    using f(4) by (simp only: diff_zero)
  have g5: "invocations BATCH_SIZE 2 ?env freshWorld = Inr wf"
    using f(5) by (simp only: one_add_one)
  have g6: "summaries (events wf) = [map (processPage ?env) tenIds]"
    using f(6) unfolding ids by (simp add: freshWorld_def)
  show ?thesis
    by (rule exI [of _ wk], rule exI [of _ wf]) (simp only: g1 f(2) g3 g4 g5 g6 simp_thms)
qed

section \<open>An invocation outside a run\<close>

text \<open>
  Claim C1, as amended. \<^verbatim>\<open>processBatchExport\<close> has no idle guard: it is the start of
  a run as well as its continuation. Invoked while no run is in progress, with the
  settings in place, a non-empty listing and no unparseable \<^verbatim>\<open>BATCH_RESULTS\<close>, it does
  not raise, and it is not a no-op: it starts a run over the current listing and
  processes the first chunk. If pages remain, the store then holds the new run at
  batch index 1 and one trigger is installed; otherwise the whole run is done, its
  summary is written, and the batch keys and the trigger are gone. What keeps a
  continuation from firing after a cancellation or a completion is that both delete
  the triggers: \<^verbatim>\<open>cancelBatchExport\<close> leaves no trigger and no run state.
\<close>

theorem idle_invocation_starts_a_run:
  assumes ok: "settings_ok env"
    and idle: "BATCH_IN_PROGRESS (props w) \<noteq> Some ''true''"
    and parse: "BATCH_RESULTS (props w) \<noteq> Some Garbage"
    and pages: "getNotionDatabasePages env = pages" "pages \<noteq> []"
  shows "(\<exists>w' rest. processBatchExportWith bs env w = Inr w' \<and>
            events w' =
              events w @ Alert (BatchStarted (length pages)) #
                map (\<lambda>i. Processed (processPage env i)) (take bs (map page_id pages)) @ rest \<and>
            (if bs < length pages
             then BATCH_IN_PROGRESS (props w') = Some ''true'' \<and>
                  CURRENT_BATCH_INDEX (props w') = Some 1 \<and>
                  TOTAL_PAGES (props w') = Some (length pages) \<and>
                  BATCH_PAGE_IDS (props w') = Some (Json (map page_id pages)) \<and>
                  BATCH_RESULTS (props w') =
                    Some (Json (map (processPage env) (take bs (map page_id pages)))) \<and>
                  triggers w' = 1
             else props w' = deleteBatchProperties (props w) \<and> triggers w' = 0 \<and>
                  summaries (events w') =
                    summaries (events w) @ [map (processPage env) (map page_id pages)])) \<and>
         triggers (cancelBatchExport w0) = 0 \<and>
         BATCH_IN_PROGRESS (props (cancelBatchExport w0)) = None \<and>
         BATCH_RESULTS (props (cancelBatchExport w0)) = None"
proof (intro conjI)
  let ?chunk = "take bs (map page_id pages)"
  let ?evs = "events w @ Alert (BatchStarted (length pages)) #
      map (\<lambda>i. Processed (processPage env i)) ?chunk @ [Recorded (map (processPage env) ?chunk)]"
  have eq: "processBatchExportWith bs env w =
      processChunk bs env 0 (length pages) (parseIntOr0 (PROCESSED_PAGES (props w)))
        (Some (now env)) [] (initBatch env pages w)"
    by (rule first_invocation [OF ok idle parse pages])
  show "\<exists>w' rest. processBatchExportWith bs env w = Inr w' \<and>
            events w' =
              events w @ Alert (BatchStarted (length pages)) #
                map (\<lambda>i. Processed (processPage env i)) (take bs (map page_id pages)) @ rest \<and>
            (if bs < length pages
             then BATCH_IN_PROGRESS (props w') = Some ''true'' \<and>
                  CURRENT_BATCH_INDEX (props w') = Some 1 \<and>
                  TOTAL_PAGES (props w') = Some (length pages) \<and>
                  BATCH_PAGE_IDS (props w') = Some (Json (map page_id pages)) \<and>
                  BATCH_RESULTS (props w') =
                    Some (Json (map (processPage env) (take bs (map page_id pages)))) \<and>
                  triggers w' = 1
             else props w' = deleteBatchProperties (props w) \<and> triggers w' = 0 \<and>
                  summaries (events w') =
                    summaries (events w) @ [map (processPage env) (map page_id pages)])"
  proof (cases "bs < length pages")
    case True
    let ?w = "\<lparr>props = (props w)\<lparr>BATCH_IN_PROGRESS := Some ''true'',
                 CURRENT_BATCH_INDEX := Some 1,
                 TOTAL_PAGES := Some (length pages),
                 PROCESSED_PAGES := Some (parseIntOr0 (PROCESSED_PAGES (props w)) + length ?chunk),
                 BATCH_PAGE_IDS := Some (Json (map page_id pages)),
                 BATCH_STARTED_AT := Some (now env),
                 BATCH_RESULTS := Some (Json (map (processPage env) ?chunk))\<rparr>,
             triggers = 1, events = ?evs\<rparr>"
    from True have "processBatchExportWith bs env w = Inr ?w"
      unfolding eq first_chunk by (simp add: Let_def)
    with True show ?thesis
      by (intro exI [of _ ?w] exI [of _ "[Recorded (map (processPage env) ?chunk)]"]) simp
  next
    case False
    let ?w = "\<lparr>props = deleteBatchProperties (props w), triggers = 0,
             events = ?evs @ [Summary (map (processPage env) ?chunk) (Some (now env))]\<rparr>"
    from False have "processBatchExportWith bs env w = Inr ?w"
      unfolding eq first_chunk by (simp add: Let_def)
    with False show ?thesis
      by (intro exI [of _ ?w] exI [of _ "[Recorded (map (processPage env) ?chunk),
              Summary (map (processPage env) ?chunk) (Some (now env))]"])
         (simp add: summaries_append summaries_Processed comp_def)
  qed
qed (simp_all add: cancelBatchExport_def showAlert_def deleteBatchProperties_def
      deleteTriggers_def)

text \<open>An invocation that fires after the run over the ten pages was cancelled.\<close>

theorem idle_invocation_starts_a_run_witness:
  "\<exists>w'. processBatchExport (exampleEnv tenIds []) (cancelBatchExport midRunWorld) = Inr w' \<and>
      BATCH_IN_PROGRESS (props w') = Some ''true'' \<and>
      CURRENT_BATCH_INDEX (props w') = Some 1 \<and>
      BATCH_PAGE_IDS (props w') = Some (Json tenIds) \<and>
      triggers w' = 1"
proof -
  let ?env = "exampleEnv tenIds []"
  have pages: "getNotionDatabasePages ?env = map examplePage tenIds"
    by (simp add: getNotionDatabasePages_def exampleEnv_def tenIds_def)
  have ids: "map page_id (map examplePage tenIds) = tenIds"
    by (simp add: tenIds_def examplePage_def)
  have more: "BATCH_SIZE < length (map examplePage tenIds)"
    by (simp add: BATCH_SIZE_def tenIds_def)
  from idle_invocation_starts_a_run
    [of ?env "cancelBatchExport midRunWorld" "map examplePage tenIds" BATCH_SIZE,
     OF _ _ _ pages]
  obtain w' where "processBatchExportWith BATCH_SIZE ?env (cancelBatchExport midRunWorld) = Inr w'"
    "BATCH_IN_PROGRESS (props w') = Some ''true''"
    "CURRENT_BATCH_INDEX (props w') = Some 1"
    "BATCH_PAGE_IDS (props w') = Some (Json (map page_id (map examplePage tenIds)))"
    "triggers w' = 1"
    unfolding if_P [OF more]
    by (auto simp: exampleEnv_def cancelBatchExport_def showAlert_def deleteBatchProperties_def
          deleteTriggers_def tenIds_def)
  then show ?thesis
    unfolding ids processBatchExport_def by blast
qed

text \<open>
  Claim C1 as stated fails: after the cancellation the store holds no run and no
  trigger is installed, and the next invocation writes a new run, processes the
  first five pages again and installs a trigger.
\<close>

theorem stale_invocation_counterexample:
  "processBatchExport (exampleEnv tenIds []) freshWorld = Inr midRunWorld \<and>
   cancelBatchExport midRunWorld =
     \<lparr>props = props freshWorld, triggers = 0,
      events = events midRunWorld @ [Alert BatchStopped]\<rparr> \<and>
   processBatchExport (exampleEnv tenIds []) (cancelBatchExport midRunWorld) =
     Inr \<lparr>props = props midRunWorld, triggers = 1,
          events = events midRunWorld @ [Alert BatchStopped] @ events midRunWorld\<rparr>"
  by (simp add: exporter_defs example_defs Let_def)

section \<open>The start of a run\<close>

text \<open>
  Claim C2, as amended. Invoked while no run is in progress, with the settings in
  place and a non-empty listing, \<^verbatim>\<open>processBatchExport\<close> writes the run state and
  goes on to process chunk 0 from it in the same invocation. The state written
  is: the in-progress flag, the queue of the ids of all listed pages in listing
  order, batch index 0, total = length of the queue, processed = 0, no results.
  The change detector is not run: the baseline is neither read nor written, no
  queue entry is pre-resolved, and no page of the run gets status \<open>Skipped\<close>.
\<close>

theorem start_persists_listed_page_ids:
  assumes ok: "settings_ok env"
    and idle: "BATCH_IN_PROGRESS (props w) \<noteq> Some ''true''"
    and parse: "BATCH_RESULTS (props w) \<noteq> Some Garbage"
    and pages: "getNotionDatabasePages env = pages" "pages \<noteq> []"
  shows "processBatchExportWith bs env w =
           processChunk bs env 0 (length pages) (parseIntOr0 (PROCESSED_PAGES (props w)))
             (Some (now env)) [] (initBatch env pages w) \<and>
         BATCH_IN_PROGRESS (props (initBatch env pages w)) = Some ''true'' \<and>
         BATCH_PAGE_IDS (props (initBatch env pages w)) = Some (Json (map page_id pages)) \<and>
         CURRENT_BATCH_INDEX (props (initBatch env pages w)) = Some 0 \<and>
         TOTAL_PAGES (props (initBatch env pages w)) = Some (length (map page_id pages)) \<and>
         PROCESSED_PAGES (props (initBatch env pages w)) = Some 0 \<and>
         BATCH_RESULTS (props (initBatch env pages w)) = Some (Json []) \<and>
         PROCESSED_PAGES_INFO (props (initBatch env pages w)) = PROCESSED_PAGES_INFO (props w) \<and>
         (\<forall>pg \<in> set pages. page_id pg \<in> set (map page_id pages)) \<and>
         (\<forall>pid. status (processPage env pid) \<noteq> Skipped)"
proof (intro conjI)
  show "processBatchExportWith bs env w =
           processChunk bs env 0 (length pages) (parseIntOr0 (PROCESSED_PAGES (props w)))
             (Some (now env)) [] (initBatch env pages w)"
    by (rule first_invocation [OF ok idle parse pages])
  show "\<forall>pid. status (processPage env pid) \<noteq> Skipped"
    by (simp add: processPage_status)
qed (simp_all add: initBatch_def showAlert_def Let_def)

text \<open>The ten pages, started on a store that holds a baseline.\<close>

theorem start_persists_listed_page_ids_witness:
  "processBatchExport (exampleEnv tenIds []) baselineWorld =
     processChunk BATCH_SIZE (exampleEnv tenIds []) 0 10 0 (Some ''2024-06-01T00:00:00.000Z'') []
       (initBatch (exampleEnv tenIds []) (map examplePage tenIds) baselineWorld) \<and>
   BATCH_PAGE_IDS (props (initBatch (exampleEnv tenIds []) (map examplePage tenIds) baselineWorld)) =
     Some (Json tenIds) \<and>
   CURRENT_BATCH_INDEX
     (props (initBatch (exampleEnv tenIds []) (map examplePage tenIds) baselineWorld)) = Some 0 \<and>
   TOTAL_PAGES
     (props (initBatch (exampleEnv tenIds []) (map examplePage tenIds) baselineWorld)) = Some 10 \<and>
   PROCESSED_PAGES
     (props (initBatch (exampleEnv tenIds []) (map examplePage tenIds) baselineWorld)) = Some 0"
proof -
  let ?env = "exampleEnv tenIds []"
  have pages: "getNotionDatabasePages ?env = map examplePage tenIds"
    by (simp add: getNotionDatabasePages_def exampleEnv_def tenIds_def)
  have ids: "map page_id (map examplePage tenIds) = tenIds"
    by (simp add: tenIds_def examplePage_def)
  have n: "length (map examplePage tenIds) = 10" "length tenIds = 10"
    by (simp_all add: tenIds_def)
  have p0: "parseIntOr0 (PROCESSED_PAGES (props baselineWorld)) = 0"
    by (simp add: baselineWorld_def freshWorld_def deleteAllProperties_def parseIntOr0_def)
  have t0: "now ?env = ''2024-06-01T00:00:00.000Z''"
    by (simp add: exampleEnv_def)
  from start_persists_listed_page_ids
    [of ?env baselineWorld "map examplePage tenIds" BATCH_SIZE, OF _ _ _ pages]
  show ?thesis
    unfolding ids n p0 t0 processBatchExport_def
    by (simp add: exampleEnv_def baselineWorld_def freshWorld_def deleteAllProperties_def
          tenIds_def)
qed

text \<open>
  Claim C2 as stated fails: for a page that the change detector pre-resolves to
  \<open>Skipped\<close>, the batch exporter queues the bare id and exports the page again.
\<close>

theorem start_without_change_detection_counterexample:
  "partitionPages (parsePagesInfo (PROCESSED_PAGES_INFO (props baselineWorld)))
     (getNotionDatabasePages (exampleEnv [''p01''] [])) [] [] =
     ([], [\<lparr>pageId = ''p01'', pageTitle = ''p01'', status = Skipped,
            message = SkippedUnchanged, fileId = Some ''doc-p01''\<rparr>]) \<and>
   BATCH_PAGE_IDS (props (initBatch (exampleEnv [''p01''] [])
     (getNotionDatabasePages (exampleEnv [''p01''] [])) baselineWorld)) = Some (Json [''p01'']) \<and>
   processBatchExport (exampleEnv [''p01''] []) baselineWorld =
     Inr \<lparr>props = props baselineWorld, triggers = 0,
          events = [Alert (BatchStarted 1), Processed (savedResult ''p01''),
                    Recorded [savedResult ''p01''],
                    Summary [savedResult ''p01''] (Some ''2024-06-01T00:00:00.000Z'')]\<rparr> \<and>
   status (savedResult ''p01'') = Success"
  by (simp add: exporter_defs example_defs Let_def parsePagesInfo_def isNewOrUpdated_def
        skippedResult_def)

section \<open>Defects of the batch exporter\<close>

text \<open>
  Claim C10. \<^verbatim>\<open>startBatchExport\<close> on a run in progress clears the flag and the
  trigger and starts a run at batch index 0 with empty results, but the processed
  count of the old run survives: the first-run branch writes \<^verbatim>\<open>PROCESSED_PAGES = 0\<close>
  and does not reset the local \<^verbatim>\<open>processedPages\<close> read before it. On the world
  with five of ten pages processed, the restarted run reports ten processed pages
  after its first five.
\<close>

theorem restart_keeps_processed_count:
  "PROCESSED_PAGES (props midRunWorld) = Some 5 \<and>
   startBatchExport (exampleEnv tenIds []) midRunWorld =
     Inr \<lparr>props = (props midRunWorld)\<lparr>PROCESSED_PAGES := Some 10\<rparr>, triggers = 1,
          events = events midRunWorld @ events midRunWorld\<rparr>"
  by (simp add: exporter_defs example_defs Let_def)

text \<open>
  Claim C7. An attempt that ends before a run exists calls
  \<^verbatim>\<open>deleteAllProperties()\<close>: on an empty listing and on missing settings the API key
  and the change-detection baseline are deleted with everything else (missing
  settings also raise two alerts), and the next \<^verbatim>\<open>startBatchExport\<close> stops at the
  missing API key. The differential exporter leaves the store alone on the same
  empty listing.
\<close>

theorem abort_deletes_all_properties:
  "NOTION_API_KEY (props baselineWorld) = Some ''secret'' \<and>
   startBatchExport (exampleEnv [] []) baselineWorld =
     Inr \<lparr>props = deleteAllProperties, triggers = 0, events = [Alert NoDataFound]\<rparr> \<and>
   processBatchExport (settingsMissing (exampleEnv tenIds [])) baselineWorld =
     Inr \<lparr>props = deleteAllProperties, triggers = 0,
          events = [Alert SettingsNotLoaded, Alert SettingsError]\<rparr> \<and>
   startBatchExport (exampleEnv tenIds [])
     \<lparr>props = deleteAllProperties, triggers = 0, events = [Alert NoDataFound]\<rparr> =
     Inr \<lparr>props = deleteAllProperties, triggers = 0,
          events = [Alert NoDataFound, Alert ApiKeyMissing]\<rparr> \<and>
   exportDifferentialNotionPages (exampleEnv [] []) baselineWorld =
     (None, baselineWorld\<lparr>events := [Alert NoDataFound]\<rparr>)"
  by (simp add: exporter_defs example_defs Let_def exportDifferentialNotionPages_def
        parsePagesInfo_def)

text \<open>
  Claim C8. The batch exporter parses \<^verbatim>\<open>BATCH_RESULTS\<close> and \<^verbatim>\<open>BATCH_PAGE_IDS\<close> outside
  any \<^verbatim>\<open>try\<close>: with either unparseable the invocation ends in a \<open>SyntaxError\<close>, in
  the middle of a run and for \<^verbatim>\<open>BATCH_RESULTS\<close> also at its start. The differential
  exporter catches the same failure on its baseline and exports from an empty one.
\<close>

theorem unparseable_run_state_throws:
  "processBatchExport (exampleEnv tenIds [])
     (midRunWorld\<lparr>props := (props midRunWorld)\<lparr>BATCH_RESULTS := Some Garbage\<rparr>\<rparr>) =
     Inl SyntaxError \<and>
   processBatchExport (exampleEnv tenIds [])
     (midRunWorld\<lparr>props := (props midRunWorld)\<lparr>BATCH_PAGE_IDS := Some Garbage\<rparr>\<rparr>) =
     Inl SyntaxError \<and>
   processBatchExport (exampleEnv tenIds [])
     (freshWorld\<lparr>props := (props freshWorld)\<lparr>BATCH_RESULTS := Some Garbage\<rparr>\<rparr>) =
     Inl SyntaxError \<and>
   fst (exportDifferentialNotionPages (exampleEnv [''p01''] [])
     (freshWorld\<lparr>props := (props freshWorld)\<lparr>PROCESSED_PAGES_INFO := Some Garbage\<rparr>\<rparr>)) =
     Some [savedResult ''p01'']"
  by (simp add: exporter_defs example_defs Let_def exportDifferentialNotionPages_def
        parsePagesInfo_def isNewOrUpdated_def processDiffPage_def orElse_def)


section \<open>The differential exporter: one run\<close>

lemma processDiffPages_diffRun:
  "processDiffPages env pgs rs S w =
     (rs @ fst (diffRun env S pgs), snd (diffRun env S pgs),
      w\<lparr>events := events w @ map Processed (fst (diffRun env S pgs))\<rparr>)"
  by (induction pgs arbitrary: rs S w) (simp_all add: split_beta Let_def)

lemma processDiffPage_pageId: "pageId (fst (processDiffPage env S pg)) = page_id pg"
  by (simp add: processDiffPage_def convertPage_def Let_def split: sum.splits)

lemma processDiffPage_status:
  "status (fst (processDiffPage env S pg)) = Success \<or>
   status (fst (processDiffPage env S pg)) = Fail"
  by (simp add: processDiffPage_def convertPage_def Let_def split: sum.splits)

lemma processDiffPage_other:
  "pid \<noteq> page_id pg \<Longrightarrow> map_of (snd (processDiffPage env S pg)) pid = map_of S pid"
  by (simp add: processDiffPage_def Let_def update_conv')

lemma processDiffPage_unchanged:
  "status (fst (processDiffPage env S pg)) \<noteq> Success \<Longrightarrow> snd (processDiffPage env S pg) = S"
  by (simp add: processDiffPage_def Let_def)

lemma processDiffPage_written:
  "status (fst (processDiffPage env S pg)) = Success \<Longrightarrow>
   map_of (snd (processDiffPage env S pg)) (page_id pg) =
     Some \<lparr>lastModified = Some (orElse (last_edited_time pg) (now env)),
           docId = fileId (fst (processDiffPage env S pg)), title = getPageTitle pg\<rparr>"
  by (simp add: processDiffPage_def Let_def update_conv')

lemma diffRun_pageId: "map pageId (fst (diffRun env S pgs)) = map page_id pgs"
  by (induction pgs arbitrary: S) (simp_all add: split_beta processDiffPage_pageId)

text \<open>An id without a successful result keeps its entry.\<close>

lemma diffRun_frame:
  "\<forall>r \<in> set (fst (diffRun env S pgs)). pageId r = pid \<longrightarrow> status r \<noteq> Success \<Longrightarrow>
   map_of (snd (diffRun env S pgs)) pid = map_of S pid"
proof (induction pgs arbitrary: S)
  case Nil
  then show ?case by simp
next
  case (Cons pg pgs)
  let ?S' = "snd (processDiffPage env S pg)"
  from Cons.prems have rest:
    "\<forall>r \<in> set (fst (diffRun env ?S' pgs)). pageId r = pid \<longrightarrow> status r \<noteq> Success"
    and first: "page_id pg = pid \<longrightarrow> status (fst (processDiffPage env S pg)) \<noteq> Success"
    by (simp_all add: split_beta processDiffPage_pageId)
  have "map_of ?S' pid = map_of S pid"
  proof (cases "page_id pg = pid")
    case True
    with first show ?thesis
      by (simp add: processDiffPage_unchanged)
  next
    case False
    then show ?thesis
      by (simp add: processDiffPage_other)
  qed
  with Cons.IH [OF rest] show ?case
    by (simp add: split_beta)
qed

lemma diffRun_zip_pageId:
  assumes "(pg, r) \<in> set (zip pgs (fst (diffRun env S pgs)))"
  shows "pageId r = page_id pg \<and> pageTitle r = getPageTitle pg"
  using assms
proof (induction pgs arbitrary: S)
  case Nil
  then show ?case by simp
next
  case (Cons p pgs)
  then show ?case
    by (auto simp: split_beta processDiffPage_pageId processDiffPage_def convertPage_def Let_def
          split: sum.splits)
qed

text \<open>
  An id with a successful result ends with the entry assigned at a successful
  conversion of a page with that id (the last one).
\<close>

lemma diffRun_written_pair:
  "r \<in> set (fst (diffRun env S pgs)) \<Longrightarrow> status r = Success \<Longrightarrow>
   \<exists>pg r'. (pg, r') \<in> set (zip pgs (fst (diffRun env S pgs))) \<and> page_id pg = pageId r \<and>
      status r' = Success \<and>
      map_of (snd (diffRun env S pgs)) (pageId r) =
        Some \<lparr>lastModified = Some (orElse (last_edited_time pg) (now env)),
              docId = fileId r', title = getPageTitle pg\<rparr>"
proof (induction pgs arbitrary: S r)
  case Nil
  then show ?case by simp
next
  case (Cons p pgs)
  let ?r0 = "fst (processDiffPage env S p)"
  let ?S' = "snd (processDiffPage env S p)"
  let ?rs = "fst (diffRun env ?S' pgs)"
  show ?case
  proof (cases "\<exists>r2 \<in> set ?rs. pageId r2 = pageId r \<and> status r2 = Success")
    case True
    then obtain r2 where r2: "r2 \<in> set ?rs" "pageId r2 = pageId r" "status r2 = Success"
      by blast
    from Cons.IH [OF r2(1) r2(3)] r2(2)
    obtain pg r' where "(pg, r') \<in> set (zip pgs ?rs)" "page_id pg = pageId r"
        "status r' = Success"
        "map_of (snd (diffRun env ?S' pgs)) (pageId r) =
           Some \<lparr>lastModified = Some (orElse (last_edited_time pg) (now env)),
                 docId = fileId r', title = getPageTitle pg\<rparr>"
      by auto
    then show ?thesis
      by (intro exI [of _ pg] exI [of _ r']) (simp add: split_beta)
  next
    case False
    with Cons.prems have r: "r = ?r0"
      by (auto simp: split_beta)
    from False have "\<forall>r2 \<in> set ?rs. pageId r2 = pageId r \<longrightarrow> status r2 \<noteq> Success"
      by blast
    then have "map_of (snd (diffRun env ?S' pgs)) (pageId r) = map_of ?S' (pageId r)"
      by (rule diffRun_frame)
    also have "\<dots> = Some \<lparr>lastModified = Some (orElse (last_edited_time p) (now env)),
                 docId = fileId ?r0, title = getPageTitle p\<rparr>"
      using Cons.prems(2) r by (simp add: processDiffPage_pageId processDiffPage_written)
    finally show ?thesis
      using Cons.prems(2) r
      by (intro exI [of _ p] exI [of _ ?r0]) (simp add: split_beta processDiffPage_pageId)
  qed
qed

text \<open>With distinct ids the entry is the one assigned at the result itself.\<close>

lemma diffRun_written_exact:
  assumes d: "distinct (map page_id pgs)"
    and r: "r \<in> set (fst (diffRun env S pgs))" "status r = Success"
  shows "\<exists>pg \<in> set pgs. page_id pg = pageId r \<and>
      map_of (snd (diffRun env S pgs)) (pageId r) =
        Some \<lparr>lastModified = Some (orElse (last_edited_time pg) (now env)),
              docId = fileId r, title = getPageTitle pg\<rparr>"
proof -
  let ?rs = "fst (diffRun env S pgs)"
  from diffRun_written_pair [OF r]
  obtain pg r' where p: "(pg, r') \<in> set (zip pgs ?rs)" "page_id pg = pageId r"
      "map_of (snd (diffRun env S pgs)) (pageId r) =
         Some \<lparr>lastModified = Some (orElse (last_edited_time pg) (now env)),
               docId = fileId r', title = getPageTitle pg\<rparr>"
    by blast
  from p(1) have mem: "pg \<in> set pgs" "r' \<in> set ?rs"
    by (auto dest: set_zip_leftD set_zip_rightD)
  from diffRun_zip_pageId [OF p(1)] p(2) have same: "pageId r' = pageId r"
    by simp
  have "distinct (map pageId ?rs)"
    using d by (simp add: diffRun_pageId)
  then have "inj_on pageId (set ?rs)"
    by (simp add: distinct_map)
  with mem(2) r(1) same have "r' = r"
    by (auto dest: inj_onD)
  with p mem(1) show ?thesis
    by auto
qed

text \<open>A run of the differential exporter that gets past its early returns.\<close>

lemma exportDifferential_run:
  assumes ok: "settings_ok env"
    and key: "truthy (NOTION_API_KEY (props w))"
    and pages: "getNotionDatabasePages env = pages" "pages \<noteq> []"
    and S0: "S0 = parsePagesInfo (PROCESSED_PAGES_INFO (props w))"
    and tp: "tp = filter (isNewOrUpdated S0) pages"
    and sk: "sk = map (skippedResult S0) (filter (\<lambda>pg. \<not> isNewOrUpdated S0 pg) pages)"
  shows "exportDifferentialNotionPages env w =
     (Some (fst (diffRun env S0 tp) @ sk),
      w\<lparr>props := (props w)\<lparr>PROCESSED_PAGES_INFO := Some (Json (snd (diffRun env S0 tp))),
                             LAST_EXPORT_TIMESTAMP := Some (now env)\<rparr>,
        events := events w @ map Processed (fst (diffRun env S0 tp)) @
          [SavedPagesInfo (snd (diffRun env S0 tp)), SavedTimestamp (now env),
           Recorded (fst (diffRun env S0 tp) @ sk)]\<rparr>)"
  using ok key pages
  by (simp add: exportDifferentialNotionPages_def loadSettings_def Let_def
        partitionPages_filter processDiffPages_diffRun S0 tp sk recordResultsToSpreadsheet_def)

lemma skippedResult_status: "status (skippedResult S pg) = Skipped"
  by (simp add: skippedResult_def)

text \<open>
  Claim C5, as amended, for \<^verbatim>\<open>exportDifferentialNotionPages\<close>. The entry of an item
  is assigned, in memory, exactly when the item yields \<open>Success\<close>, and the baseline
  is written to the store once, after the last item has been processed. So in the
  trace every \<open>Processed\<close> event of the run precedes the single \<open>SavedPagesInfo\<close>, and
  in the baseline that is written
  \<^item> an id without a \<open>Success\<close> result has the entry it had before the run;
  \<^item> an id with a \<open>Success\<close> result has the entry assigned at a successful
    conversion of a page with that id: the page's \<^verbatim>\<open>last_edited_time\<close> (the time of
    the run if it has none), the document id of that conversion, and the title;
  \<^item> if the listed ids are distinct, this is the entry made from the result itself.
\<close>

theorem baseline_saved_after_the_loop:
  assumes ok: "settings_ok env"
    and key: "truthy (NOTION_API_KEY (props w))"
    and pages: "getNotionDatabasePages env = pages" "pages \<noteq> []"
    and S0: "S0 = parsePagesInfo (PROCESSED_PAGES_INFO (props w))"
  shows "\<exists>processed skipped final w'.
      exportDifferentialNotionPages env w = (Some (processed @ skipped), w') \<and>
      (\<forall>r \<in> set skipped. status r = Skipped) \<and>
      events w' = events w @ map Processed processed @
        [SavedPagesInfo final, SavedTimestamp (now env), Recorded (processed @ skipped)] \<and>
      PROCESSED_PAGES_INFO (props w') = Some (Json final) \<and>
      (\<forall>pid. (\<forall>r \<in> set (processed @ skipped). pageId r = pid \<longrightarrow> status r \<noteq> Success) \<longrightarrow>
         map_of final pid = map_of S0 pid) \<and>
      (\<forall>r \<in> set (processed @ skipped). status r = Success \<longrightarrow>
         (\<exists>pg r'. (pg, r') \<in> set (zip (filter (isNewOrUpdated S0) pages) processed) \<and>
            page_id pg = pageId r \<and> status r' = Success \<and>
            map_of final (pageId r) =
              Some \<lparr>lastModified = Some (orElse (last_edited_time pg) (now env)),
                    docId = fileId r', title = getPageTitle pg\<rparr>)) \<and>
      (distinct (map page_id pages) \<longrightarrow>
         (\<forall>r \<in> set (processed @ skipped). status r = Success \<longrightarrow>
            (\<exists>pg \<in> set pages. page_id pg = pageId r \<and>
               map_of final (pageId r) =
                 Some \<lparr>lastModified = Some (orElse (last_edited_time pg) (now env)),
                       docId = fileId r, title = getPageTitle pg\<rparr>)))"
proof -
  define tp where "tp = filter (isNewOrUpdated S0) pages"
  define sk where "sk = map (skippedResult S0) (filter (\<lambda>pg. \<not> isNewOrUpdated S0 pg) pages)"
  let ?rs = "fst (diffRun env S0 tp)"
  let ?S = "snd (diffRun env S0 tp)"
  let ?w = "w\<lparr>props := (props w)\<lparr>PROCESSED_PAGES_INFO := Some (Json ?S),
                             LAST_EXPORT_TIMESTAMP := Some (now env)\<rparr>,
        events := events w @ map Processed ?rs @
          [SavedPagesInfo ?S, SavedTimestamp (now env), Recorded (?rs @ sk)]\<rparr>"
  have run: "exportDifferentialNotionPages env w = (Some (?rs @ sk), ?w)"
    by (rule exportDifferential_run [OF ok key pages S0 tp_def sk_def])
  have skipped: "\<forall>r \<in> set sk. status r = Skipped"
    by (auto simp: sk_def skippedResult_status)
  have processed: "r \<in> set ?rs" if "r \<in> set (?rs @ sk)" "status r = Success" for r
    using that skipped by auto
  have frame: "map_of ?S pid = map_of S0 pid"
    if "\<forall>r \<in> set (?rs @ sk). pageId r = pid \<longrightarrow> status r \<noteq> Success" for pid
    using that by (intro diffRun_frame) simp
  have written: "\<exists>pg r'. (pg, r') \<in> set (zip tp ?rs) \<and> page_id pg = pageId r \<and>
      status r' = Success \<and>
      map_of ?S (pageId r) =
        Some \<lparr>lastModified = Some (orElse (last_edited_time pg) (now env)),
              docId = fileId r', title = getPageTitle pg\<rparr>"
    if "r \<in> set (?rs @ sk)" "status r = Success" for r
    using diffRun_written_pair [OF processed [OF that] that(2)] .
  have exact: "\<exists>pg \<in> set pages. page_id pg = pageId r \<and>
      map_of ?S (pageId r) =
        Some \<lparr>lastModified = Some (orElse (last_edited_time pg) (now env)),
              docId = fileId r, title = getPageTitle pg\<rparr>"
    if d: "distinct (map page_id pages)" and r: "r \<in> set (?rs @ sk)" "status r = Success" for r
  proof -
    have "distinct (map page_id tp)"
      unfolding tp_def using d by (rule distinct_map_filter)
    from diffRun_written_exact [OF this processed [OF r] r(2)] show ?thesis
      by (auto simp: tp_def)
  qed
  show ?thesis
  proof (intro exI conjI)
    show "exportDifferentialNotionPages env w = (Some (?rs @ sk), ?w)"
      by (rule run)
    show "\<forall>r \<in> set sk. status r = Skipped"
      by (rule skipped)
    show "events ?w = events w @ map Processed ?rs @
        [SavedPagesInfo ?S, SavedTimestamp (now env), Recorded (?rs @ sk)]"
      by simp
    show "PROCESSED_PAGES_INFO (props ?w) = Some (Json ?S)"
      by simp
    show "\<forall>pid. (\<forall>r \<in> set (?rs @ sk). pageId r = pid \<longrightarrow> status r \<noteq> Success) \<longrightarrow>
         map_of ?S pid = map_of S0 pid"
      using frame by blast
    show "\<forall>r \<in> set (?rs @ sk). status r = Success \<longrightarrow>
         (\<exists>pg r'. (pg, r') \<in> set (zip (filter (isNewOrUpdated S0) pages) ?rs) \<and>
            page_id pg = pageId r \<and> status r' = Success \<and>
            map_of ?S (pageId r) =
              Some \<lparr>lastModified = Some (orElse (last_edited_time pg) (now env)),
                    docId = fileId r', title = getPageTitle pg\<rparr>)"
      using written unfolding tp_def by blast
    show "distinct (map page_id pages) \<longrightarrow>
         (\<forall>r \<in> set (?rs @ sk). status r = Success \<longrightarrow>
            (\<exists>pg \<in> set pages. page_id pg = pageId r \<and>
               map_of ?S (pageId r) =
                 Some \<lparr>lastModified = Some (orElse (last_edited_time pg) (now env)),
                       docId = fileId r, title = getPageTitle pg\<rparr>))"
      using exact by blast
  qed
qed

lemmas differential_defs =
  exportDifferentialNotionPages_def parsePagesInfo_def isNewOrUpdated_def skippedResult_def
  processDiffPage_def orElse_def failedResult_def unchangedResult_def exportedInfo_def
  staleInfo_def staleWorld_def

lemma three_pages_first_run:
  "exportDifferentialNotionPages (exampleEnv [''p01'', ''p02'', ''p03''] [''p02'']) freshWorld =
     (Some [savedResult ''p01'', failedResult ''p02'', savedResult ''p03''],
      \<lparr>props = (props freshWorld)
         \<lparr>PROCESSED_PAGES_INFO :=
            Some (Json [(''p01'', exportedInfo ''p01''), (''p03'', exportedInfo ''p03'')]),
          LAST_EXPORT_TIMESTAMP := Some ''2024-06-01T00:00:00.000Z''\<rparr>,
       triggers = 0,
       events =
         [Processed (savedResult ''p01''), Processed (failedResult ''p02''),
          Processed (savedResult ''p03''),
          SavedPagesInfo [(''p01'', exportedInfo ''p01''), (''p03'', exportedInfo ''p03'')],
          SavedTimestamp ''2024-06-01T00:00:00.000Z'',
          Recorded [savedResult ''p01'', failedResult ''p02'', savedResult ''p03''] ]\<rparr>)"
  by (simp add: exporter_defs example_defs differential_defs Let_def)

text \<open>
  Three pages, all edited since the baseline was written for the first two; the
  conversion of the second one fails. The entry of \<open>p01\<close> is replaced, that of \<open>p02\<close>
  is kept, \<open>p03\<close> gets its first entry.
\<close>

lemma three_pages_stale_run:
  "exportDifferentialNotionPages (exampleEnv [''p01'', ''p02'', ''p03''] [''p02'']) staleWorld =
     (Some [savedResult ''p01'', failedResult ''p02'', savedResult ''p03''],
      \<lparr>props = (props freshWorld)
         \<lparr>PROCESSED_PAGES_INFO :=
            Some (Json [(''p01'', exportedInfo ''p01''), (''p02'', staleInfo ''p02''),
                        (''p03'', exportedInfo ''p03'')]),
          LAST_EXPORT_TIMESTAMP := Some ''2024-06-01T00:00:00.000Z''\<rparr>,
       triggers = 0,
       events =
         [Processed (savedResult ''p01''), Processed (failedResult ''p02''),
          Processed (savedResult ''p03''),
          SavedPagesInfo [(''p01'', exportedInfo ''p01''), (''p02'', staleInfo ''p02''),
                          (''p03'', exportedInfo ''p03'')],
          SavedTimestamp ''2024-06-01T00:00:00.000Z'',
          Recorded [savedResult ''p01'', failedResult ''p02'', savedResult ''p03''] ]\<rparr>)"
  by (simp add: exporter_defs example_defs differential_defs Let_def)

theorem baseline_saved_after_the_loop_witness:
  "\<exists>final w'.
     exportDifferentialNotionPages (exampleEnv [''p01'', ''p02'', ''p03''] [''p02'']) staleWorld =
       (Some [savedResult ''p01'', failedResult ''p02'', savedResult ''p03''], w') \<and>
     events w' =
       [Processed (savedResult ''p01''), Processed (failedResult ''p02''),
        Processed (savedResult ''p03''), SavedPagesInfo final,
        SavedTimestamp ''2024-06-01T00:00:00.000Z'',
        Recorded [savedResult ''p01'', failedResult ''p02'', savedResult ''p03''] ] \<and>
     PROCESSED_PAGES_INFO (props w') = Some (Json final) \<and>
     map_of final ''p01'' = Some (exportedInfo ''p01'') \<and>
     map_of final ''p02'' = Some (staleInfo ''p02'') \<and>
     map_of final ''p03'' = Some (exportedInfo ''p03'')"
proof -
  let ?env = "exampleEnv [''p01'', ''p02'', ''p03''] [''p02'']"
  let ?S0 = "[(''p01'', staleInfo ''p01''), (''p02'', staleInfo ''p02'')]"
  have pages: "getNotionDatabasePages ?env = map examplePage [''p01'', ''p02'', ''p03'']"
    by (simp add: getNotionDatabasePages_def exampleEnv_def)
  have S0: "?S0 = parsePagesInfo (PROCESSED_PAGES_INFO (props staleWorld))"
    by (simp add: parsePagesInfo_def staleWorld_def)
  have d: "distinct (map page_id (map examplePage [''p01'', ''p02'', ''p03'']))"
    by (simp add: examplePage_def)
  from baseline_saved_after_the_loop [of ?env staleWorld, OF _ _ pages _ S0]
  obtain processed skipped final w' where f:
      "exportDifferentialNotionPages ?env staleWorld = (Some (processed @ skipped), w')"
      "PROCESSED_PAGES_INFO (props w') = Some (Json final)"
      "\<forall>pid. (\<forall>r \<in> set (processed @ skipped). pageId r = pid \<longrightarrow> status r \<noteq> Success) \<longrightarrow>
         map_of final pid = map_of ?S0 pid"
      "\<forall>r \<in> set (processed @ skipped). status r = Success \<longrightarrow>
         (\<exists>pg \<in> set (map examplePage [''p01'', ''p02'', ''p03'']). page_id pg = pageId r \<and>
            map_of final (pageId r) =
              Some \<lparr>lastModified = Some (orElse (last_edited_time pg) (now ?env)),
                    docId = fileId r, title = getPageTitle pg\<rparr>)"
    using d
    by (auto simp: exampleEnv_def staleWorld_def freshWorld_def deleteAllProperties_def
          truthy_def)
  have "(Some (processed @ skipped), w') =
      (Some [savedResult ''p01'', failedResult ''p02'', savedResult ''p03''],
       snd (exportDifferentialNotionPages ?env staleWorld))"
    unfolding f(1) [symmetric] by (simp add: three_pages_stale_run)
  then have rs: "processed @ skipped =
      [savedResult ''p01'', failedResult ''p02'', savedResult ''p03'']"
    and w': "w' = snd (exportDifferentialNotionPages ?env staleWorld)"
    by simp_all
  from f(2) have final: "final = [(''p01'', exportedInfo ''p01''), (''p02'', staleInfo ''p02''),
      (''p03'', exportedInfo ''p03'')]"
    unfolding w' by (simp add: three_pages_stale_run)
  from f(3) have "map_of final ''p02'' = Some (staleInfo ''p02'')"
    unfolding rs by (simp add: savedResult_def failedResult_def)
  moreover from f(4) have "map_of final ''p01'' = Some (exportedInfo ''p01'')"
      "map_of final ''p03'' = Some (exportedInfo ''p03'')"
    unfolding rs
    by (auto simp: savedResult_def failedResult_def examplePage_def exportedInfo_def orElse_def
          getPageTitle_def exampleEnv_def)
  moreover have "events w' =
       [Processed (savedResult ''p01''), Processed (failedResult ''p02''),
        Processed (savedResult ''p03''), SavedPagesInfo final,
        SavedTimestamp ''2024-06-01T00:00:00.000Z'',
        Recorded [savedResult ''p01'', failedResult ''p02'', savedResult ''p03''] ]"
    unfolding w' final by (simp add: three_pages_stale_run)
  ultimately show ?thesis
    using f(1,2) unfolding rs by blast
qed

text \<open>
  Claim C5 as stated fails: \<open>p02\<close> is processed before anything is written for
  \<open>p01\<close>, and the only write of the baseline comes after both.
\<close>

theorem baseline_saved_late_counterexample:
  "exportDifferentialNotionPages (exampleEnv [''p01'', ''p02''] []) freshWorld =
     (Some [savedResult ''p01'', savedResult ''p02''],
      \<lparr>props = (props freshWorld)
         \<lparr>PROCESSED_PAGES_INFO :=
            Some (Json [(''p01'', exportedInfo ''p01''), (''p02'', exportedInfo ''p02'')]),
          LAST_EXPORT_TIMESTAMP := Some ''2024-06-01T00:00:00.000Z''\<rparr>,
       triggers = 0,
       events =
         [Processed (savedResult ''p01''), Processed (savedResult ''p02''),
          SavedPagesInfo [(''p01'', exportedInfo ''p01''), (''p02'', exportedInfo ''p02'')],
          SavedTimestamp ''2024-06-01T00:00:00.000Z'',
          Recorded [savedResult ''p01'', savedResult ''p02''] ]\<rparr>)"
  by (simp add: exporter_defs example_defs differential_defs Let_def)

section \<open>The differential exporter: two runs in a row\<close>

lemma isNewOrUpdated_cong:
  "map_of S (page_id pg) = map_of S' (page_id pg) \<Longrightarrow>
   isNewOrUpdated S pg = isNewOrUpdated S' pg"
  by (simp add: isNewOrUpdated_def)

lemma skippedResult_pageId: "pageId (skippedResult S pg) = page_id pg"
  by (simp add: skippedResult_def)

lemma processDiffPage_result_cong:
  "map_of S (page_id pg) = map_of S' (page_id pg) \<Longrightarrow>
   fst (processDiffPage env S pg) = fst (processDiffPage env S' pg)"
  by (simp add: processDiffPage_def Let_def)

lemma processDiffPage_entry_cong:
  "map_of S (page_id pg) = map_of S' (page_id pg) \<Longrightarrow>
   map_of (snd (processDiffPage env S pg)) (page_id pg) =
   map_of (snd (processDiffPage env S' pg)) (page_id pg)"
  by (simp add: processDiffPage_def Let_def update_conv')

lemma processDiffPage_sameServices:
  "sameServices env env' \<Longrightarrow>
   fst (processDiffPage env' S pg) = fst (processDiffPage env S pg)"
  by (simp add: processDiffPage_def Let_def convertPage_sameServices)

lemma not_new_after_success:
  assumes "map_of S (page_id pg) =
      Some \<lparr>lastModified = Some (orElse (last_edited_time pg) n), docId = d, title = t\<rparr>"
  shows "\<not> isNewOrUpdated S pg"
  using assms by (simp add: isNewOrUpdated_def orElse_def split: option.splits)

lemma diffRun_unchanged:
  "\<forall>r \<in> set (fst (diffRun env S pgs)). status r \<noteq> Success \<Longrightarrow> snd (diffRun env S pgs) = S"
proof (induction pgs arbitrary: S)
  case Nil
  then show ?case by simp
next
  case (Cons pg pgs)
  from Cons.prems have "status (fst (processDiffPage env S pg)) \<noteq> Success"
    by (simp add: split_beta)
  then have same: "snd (processDiffPage env S pg) = S"
    by (rule processDiffPage_unchanged)
  with Cons.prems have "\<forall>r \<in> set (fst (diffRun env S pgs)). status r \<noteq> Success"
    by (simp add: split_beta)
  from Cons.IH [OF this] same show ?case
    by (simp add: split_beta)
qed

lemma diffRun_absent:
  assumes "pid \<notin> page_id ` set pgs"
  shows "map_of (snd (diffRun env S pgs)) pid = map_of S pid"
proof (rule diffRun_frame, intro ballI impI)
  fix r
  assume "r \<in> set (fst (diffRun env S pgs))" "pageId r = pid"
  then have "pid \<in> set (map pageId (fst (diffRun env S pgs)))"
    by auto
  with assms show "status r \<noteq> Success"
    by (simp add: diffRun_pageId)
qed

text \<open>With distinct ids every page is processed against the baseline the run started from.\<close>

lemma diffRun_distinct_results:
  "distinct (map page_id pgs) \<Longrightarrow>
   fst (diffRun env S pgs) = map (\<lambda>pg. fst (processDiffPage env S pg)) pgs"
proof (induction pgs arbitrary: S)
  case Nil
  then show ?case by simp
next
  case (Cons pg pgs)
  let ?S' = "snd (processDiffPage env S pg)"
  from Cons.prems have d: "distinct (map page_id pgs)" and fresh: "page_id pg \<notin> page_id ` set pgs"
    by simp_all
  have "map (\<lambda>p. fst (processDiffPage env ?S' p)) pgs =
        map (\<lambda>p. fst (processDiffPage env S p)) pgs"
  proof (rule map_cong [OF refl])
    fix p
    assume "p \<in> set pgs"
    with fresh have "page_id p \<noteq> page_id pg"
      by (metis image_eqI)
    then have "map_of ?S' (page_id p) = map_of S (page_id p)"
      by (rule processDiffPage_other)
    then show "fst (processDiffPage env ?S' p) = fst (processDiffPage env S p)"
      by (rule processDiffPage_result_cong)
  qed
  with Cons.IH [OF d, of ?S'] show ?case
    by (simp add: split_beta)
qed

lemma diffRun_distinct_entry:
  "distinct (map page_id pgs) \<Longrightarrow> pg \<in> set pgs \<Longrightarrow>
   map_of (snd (diffRun env S pgs)) (page_id pg) =
   map_of (snd (processDiffPage env S pg)) (page_id pg)"
proof (induction pgs arbitrary: S)
  case Nil
  then show ?case by simp
next
  case (Cons p pgs)
  let ?S' = "snd (processDiffPage env S p)"
  from Cons.prems(1) have d: "distinct (map page_id pgs)"
    and fresh: "page_id p \<notin> page_id ` set pgs"
    by simp_all
  show ?case
  proof (cases "pg = p")
    case True
    with fresh show ?thesis
      by (simp add: split_beta diffRun_absent)
  next
    case False
    with Cons.prems(2) have mem: "pg \<in> set pgs"
      by simp
    with fresh have "page_id pg \<noteq> page_id p"
      by (metis image_eqI)
    then have "map_of ?S' (page_id pg) = map_of S (page_id pg)"
      by (rule processDiffPage_other)
    then have "map_of (snd (processDiffPage env ?S' pg)) (page_id pg) =
               map_of (snd (processDiffPage env S pg)) (page_id pg)"
      by (rule processDiffPage_entry_cong)
    with Cons.IH [OF d mem, of ?S'] show ?thesis
      by (simp add: split_beta)
  qed
qed

text \<open>
  After a run, a page is new or updated exactly if it was so before and its
  conversion did not succeed.
\<close>

lemma isNewOrUpdated_after_run:
  assumes d: "distinct (map page_id pages)"
    and mem: "pg \<in> set pages"
  shows "isNewOrUpdated (snd (diffRun env S0 (filter (isNewOrUpdated S0) pages))) pg \<longleftrightarrow>
         isNewOrUpdated S0 pg \<and> status (fst (processDiffPage env S0 pg)) \<noteq> Success"
proof -
  let ?tp = "filter (isNewOrUpdated S0) pages"
  let ?S1 = "snd (diffRun env S0 ?tp)"
  have dtp: "distinct (map page_id ?tp)"
    using d by (rule distinct_map_filter)
  show ?thesis
  proof (cases "isNewOrUpdated S0 pg")
    case False
    have "page_id pg \<notin> page_id ` set ?tp"
    proof
      assume "page_id pg \<in> page_id ` set ?tp"
      then obtain p where p: "p \<in> set pages" "isNewOrUpdated S0 p" "page_id p = page_id pg"
        by auto
      with d mem have "p = pg"
        by (simp add: distinct_map inj_on_def)
      with p False show False
        by simp
    qed
    then have "map_of ?S1 (page_id pg) = map_of S0 (page_id pg)"
      by (rule diffRun_absent)
    from isNewOrUpdated_cong [OF this] False show ?thesis
      by simp
  next
    case True
    with mem have "pg \<in> set ?tp"
      by simp
    from diffRun_distinct_entry [OF dtp this]
    have entry: "map_of ?S1 (page_id pg) =
        map_of (snd (processDiffPage env S0 pg)) (page_id pg)" .
    show ?thesis
    proof (cases "status (fst (processDiffPage env S0 pg)) = Success")
      case True
      with entry have "\<not> isNewOrUpdated ?S1 pg"
        by (intro not_new_after_success) (simp add: processDiffPage_written)
      with True show ?thesis
        by simp
    next
      case False
      with entry have "map_of ?S1 (page_id pg) = map_of S0 (page_id pg)"
        by (simp add: processDiffPage_unchanged)
      from isNewOrUpdated_cong [OF this] True False show ?thesis
        by simp
    qed
  qed
qed


text \<open>
  Claim C9, as amended, for \<^verbatim>\<open>exportDifferentialNotionPages\<close>. Let a run of the
  differential exporter over a listing with distinct ids complete, and let a second
  run start from the world it left, with the same listing and services that answer
  alike (the clock may have moved). Then
  \<^item> the second run yields no \<open>Success\<close>: every result is \<open>Skipped\<close>, or is a \<open>Fail\<close>
    result of the first run;
  \<^item> every item that the first run exported or skipped is \<open>Skipped\<close>;
  \<^item> every item that failed in the first run is processed again and yields the
    same \<open>Fail\<close> result, and these are the only items that the second run processes;
  \<^item> there is one result per listed item, and the baseline written by the second
    run equals the one before it.

  In particular, after a first run without failures all items are \<open>Skipped\<close>.
\<close>

theorem second_run_skips_what_was_exported:
  assumes ok: "settings_ok env" "settings_ok env'"
    and same: "sameServices env env'"
    and key: "truthy (NOTION_API_KEY (props w))"
    and pages: "getNotionDatabasePages env = pages" "getNotionDatabasePages env' = pages"
      "pages \<noteq> []"
    and d: "distinct (map page_id pages)"
    and run1: "exportDifferentialNotionPages env w = (Some results1, w1)"
  shows "\<exists>results2 w2.
      exportDifferentialNotionPages env' w1 = (Some results2, w2) \<and>
      PROCESSED_PAGES_INFO (props w2) = PROCESSED_PAGES_INFO (props w1) \<and>
      length results2 = length pages \<and>
      (\<forall>r \<in> set results2. status r = Skipped \<or> (status r = Fail \<and> r \<in> set results1)) \<and>
      (\<forall>r \<in> set results1. status r \<noteq> Fail \<longrightarrow>
         (\<exists>r' \<in> set results2. pageId r' = pageId r \<and> status r' = Skipped)) \<and>
      (\<forall>r \<in> set results1. status r = Fail \<longrightarrow> r \<in> set results2) \<and>
      events w2 = events w1 @ map Processed (filter (\<lambda>r. status r = Fail) results2) @
        [SavedPagesInfo (parsePagesInfo (PROCESSED_PAGES_INFO (props w1))),
         SavedTimestamp (now env'), Recorded results2]"
proof -
  define S0 where "S0 = parsePagesInfo (PROCESSED_PAGES_INFO (props w))"
  define tp1 where "tp1 = filter (isNewOrUpdated S0) pages"
  define sk1 where "sk1 = map (skippedResult S0) (filter (\<lambda>pg. \<not> isNewOrUpdated S0 pg) pages)"
  define res where "res = (\<lambda>pg. fst (processDiffPage env S0 pg))"
  define S1 where "S1 = snd (diffRun env S0 tp1)"
  have dtp1: "distinct (map page_id tp1)"
    unfolding tp1_def using d by (rule distinct_map_filter)
  have rs1: "fst (diffRun env S0 tp1) = map res tp1"
    unfolding res_def by (rule diffRun_distinct_results [OF dtp1])
  from exportDifferential_run [OF ok(1) key pages(1,3) S0_def tp1_def sk1_def] run1
  have results1: "results1 = map res tp1 @ sk1"
    and w1: "props w1 = (props w)\<lparr>PROCESSED_PAGES_INFO := Some (Json S1),
                                   LAST_EXPORT_TIMESTAMP := Some (now env)\<rparr>"
    by (auto simp: rs1 S1_def)
  have key1: "truthy (NOTION_API_KEY (props w1))"
    using key by (simp add: w1)
  have S1: "S1 = parsePagesInfo (PROCESSED_PAGES_INFO (props w1))"
    by (simp add: w1 parsePagesInfo_def)
  define tp2 where "tp2 = filter (isNewOrUpdated S1) pages"
  define sk2 where "sk2 = map (skippedResult S1) (filter (\<lambda>pg. \<not> isNewOrUpdated S1 pg) pages)"
  have new1: "isNewOrUpdated S1 pg \<longleftrightarrow> isNewOrUpdated S0 pg \<and> status (res pg) \<noteq> Success"
    if "pg \<in> set pages" for pg
    unfolding S1_def tp1_def res_def by (rule isNewOrUpdated_after_run [OF d that])
  have tp2_tp1: "pg \<in> set tp1 \<and> status (res pg) \<noteq> Success" if "pg \<in> set tp2" for pg
    using that new1 by (auto simp: tp2_def tp1_def)
  have dtp2: "distinct (map page_id tp2)"
    unfolding tp2_def using d by (rule distinct_map_filter)
  have again: "fst (processDiffPage env' S1 pg) = res pg" if "pg \<in> set tp2" for pg
  proof -
    from tp2_tp1 [OF that] have mem: "pg \<in> set tp1" and fail: "status (res pg) \<noteq> Success"
      by simp_all
    from diffRun_distinct_entry [OF dtp1 mem, of env S0] fail
    have "map_of S1 (page_id pg) = map_of S0 (page_id pg)"
      by (simp add: S1_def res_def processDiffPage_unchanged)
    then have "fst (processDiffPage env' S1 pg) = fst (processDiffPage env' S0 pg)"
      by (rule processDiffPage_result_cong)
    with same show ?thesis
      by (simp add: res_def processDiffPage_sameServices)
  qed
  have rs2: "fst (diffRun env' S1 tp2) = map res tp2"
    unfolding diffRun_distinct_results [OF dtp2]
    by (rule map_cong [OF refl]) (rule again)
  have failed: "status r = Fail \<and> r \<in> set results1" if "r \<in> set (map res tp2)" for r
  proof -
    from that obtain pg where pg: "pg \<in> set tp2" "r = res pg"
      by auto
    from tp2_tp1 [OF pg(1)] pg(2) processDiffPage_status [of env S0 pg]
    show ?thesis
      by (auto simp: results1 res_def)
  qed
  then have "\<forall>r \<in> set (fst (diffRun env' S1 tp2)). status r \<noteq> Success"
    by (simp add: rs2)
  then have S2: "snd (diffRun env' S1 tp2) = S1"
    by (rule diffRun_unchanged)
  from exportDifferential_run [OF ok(2) key1 pages(2,3) S1 tp2_def sk2_def]
  have run2: "exportDifferentialNotionPages env' w1 =
      (Some (map res tp2 @ sk2),
       w1\<lparr>props := (props w1)\<lparr>PROCESSED_PAGES_INFO := Some (Json S1),
                                LAST_EXPORT_TIMESTAMP := Some (now env')\<rparr>,
          events := events w1 @ map Processed (map res tp2) @
            [SavedPagesInfo S1, SavedTimestamp (now env'), Recorded (map res tp2 @ sk2)]\<rparr>)"
    by (simp add: rs2 S2)
  have len: "length (map res tp2 @ sk2) = length pages"
    by (simp add: tp2_def sk2_def sum_length_filter_compl)
  have all: "status r = Skipped \<or> (status r = Fail \<and> r \<in> set results1)"
    if "r \<in> set (map res tp2 @ sk2)" for r
  proof (cases "r \<in> set sk2")
    case True
    then show ?thesis
      by (auto simp: sk2_def skippedResult_status)
  next
    case False
    with that have "r \<in> set (map res tp2)"
      by simp
    from failed [OF this] show ?thesis
      by simp
  qed
  have skipped: "\<exists>r' \<in> set (map res tp2 @ sk2). pageId r' = pageId r \<and> status r' = Skipped"
    if r: "r \<in> set results1" "status r \<noteq> Fail" for r
  proof -
    have "\<exists>pg \<in> set pages. \<not> isNewOrUpdated S1 pg \<and> pageId r = page_id pg"
    proof (cases "r \<in> set sk1")
      case True
      then obtain pg where "pg \<in> set pages" "\<not> isNewOrUpdated S0 pg" "r = skippedResult S0 pg"
        by (auto simp: sk1_def)
      with new1 [of pg] show ?thesis
        by (auto simp: skippedResult_pageId)
    next
      case False
      with r(1) obtain pg where pg: "pg \<in> set tp1" "r = res pg"
        by (auto simp: results1)
      with r(2) processDiffPage_status [of env S0 pg] have "status (res pg) = Success"
        by (auto simp: res_def)
      with pg new1 [of pg] show ?thesis
        by (auto simp: tp1_def res_def processDiffPage_pageId)
    qed
    then obtain pg where "pg \<in> set pages" "\<not> isNewOrUpdated S1 pg" "pageId r = page_id pg"
      by blast
    then have "skippedResult S1 pg \<in> set sk2" "pageId (skippedResult S1 pg) = pageId r"
      by (auto simp: sk2_def skippedResult_pageId)
    then show ?thesis
      by (auto simp: skippedResult_status)
  qed
  have retried: "r \<in> set (map res tp2 @ sk2)"
    if r: "r \<in> set results1" "status r = Fail" for r
  proof -
    from r have "r \<notin> set sk1"
      by (auto simp: sk1_def skippedResult_status)
    with r(1) obtain pg where pg: "pg \<in> set tp1" "r = res pg"
      by (auto simp: results1)
    with r(2) new1 [of pg] have "pg \<in> set tp2"
      by (simp add: tp1_def tp2_def)
    with pg(2) show ?thesis
      by simp
  qed
  have "filter (\<lambda>r. status r = Fail) (map res tp2) = map res tp2"
    using failed by (intro filter_True) blast
  moreover have "filter (\<lambda>r. status r = Fail) sk2 = []"
    by (auto simp: sk2_def skippedResult_status filter_empty_conv)
  ultimately have processed: "filter (\<lambda>r. status r = Fail) (map res tp2 @ sk2) = map res tp2"
    by simp
  show ?thesis
  proof (intro exI conjI)
    show "exportDifferentialNotionPages env' w1 =
      (Some (map res tp2 @ sk2),
       w1\<lparr>props := (props w1)\<lparr>PROCESSED_PAGES_INFO := Some (Json S1),
                                LAST_EXPORT_TIMESTAMP := Some (now env')\<rparr>,
          events := events w1 @ map Processed (map res tp2) @
            [SavedPagesInfo S1, SavedTimestamp (now env'), Recorded (map res tp2 @ sk2)]\<rparr>)"
      by (rule run2)
    show "PROCESSED_PAGES_INFO (props
       (w1\<lparr>props := (props w1)\<lparr>PROCESSED_PAGES_INFO := Some (Json S1),
                                LAST_EXPORT_TIMESTAMP := Some (now env')\<rparr>,
          events := events w1 @ map Processed (map res tp2) @
            [SavedPagesInfo S1, SavedTimestamp (now env'), Recorded (map res tp2 @ sk2)]\<rparr>)) =
       PROCESSED_PAGES_INFO (props w1)"
      by (simp add: w1)
    show "length (map res tp2 @ sk2) = length pages"
      by (rule len)
    show "\<forall>r \<in> set (map res tp2 @ sk2).
        status r = Skipped \<or> (status r = Fail \<and> r \<in> set results1)"
      using all by blast
    show "\<forall>r \<in> set results1. status r \<noteq> Fail \<longrightarrow>
        (\<exists>r' \<in> set (map res tp2 @ sk2). pageId r' = pageId r \<and> status r' = Skipped)"
      using skipped by blast
    show "\<forall>r \<in> set results1. status r = Fail \<longrightarrow> r \<in> set (map res tp2 @ sk2)"
      using retried by blast
    show "events
       (w1\<lparr>props := (props w1)\<lparr>PROCESSED_PAGES_INFO := Some (Json S1),
                                LAST_EXPORT_TIMESTAMP := Some (now env')\<rparr>,
          events := events w1 @ map Processed (map res tp2) @
            [SavedPagesInfo S1, SavedTimestamp (now env'), Recorded (map res tp2 @ sk2)]\<rparr>) =
       events w1 @ map Processed (filter (\<lambda>r. status r = Fail) (map res tp2 @ sk2)) @
         [SavedPagesInfo (parsePagesInfo (PROCESSED_PAGES_INFO (props w1))),
          SavedTimestamp (now env'), Recorded (map res tp2 @ sk2)]"
      unfolding processed S1 [symmetric] by simp
  qed
qed


text \<open>
  Three pages, the conversion of the second one fails; the second run, a day
  later, processes that page again, with the same \<open>Fail\<close> result, and skips the
  other two.
\<close>

theorem second_run_skips_what_was_exported_witness:
  "\<exists>w2.
     exportDifferentialNotionPages
       ((exampleEnv [''p01'', ''p02'', ''p03''] [''p02''])\<lparr>now := ''2024-06-02T00:00:00.000Z''\<rparr>)
       (snd (exportDifferentialNotionPages (exampleEnv [''p01'', ''p02'', ''p03''] [''p02''])
               freshWorld)) =
       (Some [failedResult ''p02'', unchangedResult ''p01'', unchangedResult ''p03''], w2) \<and>
     PROCESSED_PAGES_INFO (props w2) =
       Some (Json [(''p01'', exportedInfo ''p01''), (''p03'', exportedInfo ''p03'')]) \<and>
     events w2 =
       events (snd (exportDifferentialNotionPages
                      (exampleEnv [''p01'', ''p02'', ''p03''] [''p02'']) freshWorld)) @
       [Processed (failedResult ''p02''),
        SavedPagesInfo [(''p01'', exportedInfo ''p01''), (''p03'', exportedInfo ''p03'')],
        SavedTimestamp ''2024-06-02T00:00:00.000Z'',
        Recorded [failedResult ''p02'', unchangedResult ''p01'', unchangedResult ''p03''] ]"
proof -
  let ?env = "exampleEnv [''p01'', ''p02'', ''p03''] [''p02'']"
  let ?env' = "?env\<lparr>now := ''2024-06-02T00:00:00.000Z''\<rparr>"
  let ?w1 = "snd (exportDifferentialNotionPages ?env freshWorld)"
  have pages: "getNotionDatabasePages ?env = map examplePage [''p01'', ''p02'', ''p03'']"
    "getNotionDatabasePages ?env' = map examplePage [''p01'', ''p02'', ''p03'']"
    by (simp_all add: getNotionDatabasePages_def exampleEnv_def)
  have run1: "exportDifferentialNotionPages ?env freshWorld =
      (Some [savedResult ''p01'', failedResult ''p02'', savedResult ''p03''], ?w1)"
    by (simp add: three_pages_first_run)
  from second_run_skips_what_was_exported
    [of ?env ?env' freshWorld, OF _ _ _ _ pages _ _ run1]
  obtain results2 w2 where f:
      "exportDifferentialNotionPages ?env' ?w1 = (Some results2, w2)"
      "PROCESSED_PAGES_INFO (props w2) = PROCESSED_PAGES_INFO (props ?w1)"
      "events w2 = events ?w1 @ map Processed (filter (\<lambda>r. status r = Fail) results2) @
         [SavedPagesInfo (parsePagesInfo (PROCESSED_PAGES_INFO (props ?w1))),
          SavedTimestamp (now ?env'), Recorded results2]"
    by (auto simp: exampleEnv_def sameServices_def freshWorld_def deleteAllProperties_def
          truthy_def examplePage_def)
  have "fst (exportDifferentialNotionPages ?env' ?w1) =
      Some [failedResult ''p02'', unchangedResult ''p01'', unchangedResult ''p03'']"
    unfolding three_pages_first_run
    by (simp add: exporter_defs example_defs differential_defs Let_def)
  with f(1) have rs2: "results2 =
      [failedResult ''p02'', unchangedResult ''p01'', unchangedResult ''p03'']"
    by simp
  have info: "PROCESSED_PAGES_INFO (props ?w1) =
      Some (Json [(''p01'', exportedInfo ''p01''), (''p03'', exportedInfo ''p03'')])"
    by (simp add: three_pages_first_run)
  have "events w2 = events ?w1 @
       [Processed (failedResult ''p02''),
        SavedPagesInfo [(''p01'', exportedInfo ''p01''), (''p03'', exportedInfo ''p03'')],
        SavedTimestamp ''2024-06-02T00:00:00.000Z'',
        Recorded [failedResult ''p02'', unchangedResult ''p01'', unchangedResult ''p03''] ]"
    unfolding f(3) rs2 info
    by (simp add: failedResult_def unchangedResult_def parsePagesInfo_def)
  with f(1,2) rs2 info show ?thesis
    by simp
qed

text \<open>
  Claim C9 as stated fails when the first run had a failure: the second run
  processes that item again, so not all items are \<open>Skipped\<close>.
\<close>

theorem failed_item_retried_counterexample:
  "fst (exportDifferentialNotionPages (exampleEnv [''p01''] [''p01'']) freshWorld) =
     Some [failedResult ''p01''] \<and>
   fst (exportDifferentialNotionPages (exampleEnv [''p01''] [''p01''])
          (snd (exportDifferentialNotionPages (exampleEnv [''p01''] [''p01'']) freshWorld))) =
     Some [failedResult ''p01''] \<and>
   status (failedResult ''p01'') = Fail"
  by (simp add: exporter_defs example_defs differential_defs Let_def)

end
